theory Spec2Isabelle
  imports Main "HOL-Library.Char_ord" "HOL-Library.List_Lexorder"
begin

section \<open>JavaScript values used by the ingestion code\<close>

text \<open>
  A value that the code passes on as it is may be \<^verbatim>\<open>undefined\<close>, \<^verbatim>\<open>null\<close> or a proper value;
  the difference matters when the value is written to the store. Where a field only feeds
  \<^verbatim>\<open>||\<close> with a fallback, \<^verbatim>\<open>undefined\<close> and \<^verbatim>\<open>null\<close> behave alike and the field is an option,
  \<open>None\<close> standing for both.
  The operator \<^verbatim>\<open>a || b\<close> yields \<open>a\<close> when \<open>a\<close> is truthy and \<open>b\<close> otherwise; a string is
  truthy when it is not empty.
\<close>

datatype 'a js = Undefined | Null | Val 'a

definition truthy :: "string option \<Rightarrow> bool" where
  "truthy a = (case a of None \<Rightarrow> False | Some s \<Rightarrow> s \<noteq> [])"

definition js_or :: "string option \<Rightarrow> string option \<Rightarrow> string option" where
  "js_or a b = (if truthy a then a else b)"

definition js_or_lit :: "string option \<Rightarrow> string \<Rightarrow> string" where
  "js_or_lit a b = (case a of None \<Rightarrow> b | Some s \<Rightarrow> if s \<noteq> [] then s else b)"

text \<open>
  \<^verbatim>\<open>a || null\<close>: a falsy left operand (missing or the empty string) gives \<^verbatim>\<open>null\<close>.
\<close>

definition js_or_null :: "string option \<Rightarrow> string js" where
  "js_or_null a = (case a of None \<Rightarrow> Null | Some s \<Rightarrow> if s \<noteq> [] then Val s else Null)"

text \<open>\<^verbatim>\<open>a || b\<close> on values that are passed on.\<close>

definition js_truthy :: "string js \<Rightarrow> bool" where
  "js_truthy a = (case a of Val s \<Rightarrow> s \<noteq> [] | _ \<Rightarrow> False)"

definition js_or_val :: "string js \<Rightarrow> string js \<Rightarrow> string js" where
  "js_or_val a b = (if js_truthy a then a else b)"

text \<open>\<^verbatim>\<open>String(n)\<close> and \<^verbatim>\<open>`${n}`\<close> for a non-negative integer: its decimal digits.\<close>

definition digit_char :: "nat \<Rightarrow> char" where
  "digit_char d = ''0123456789'' ! (d mod 10)"

function String_of_nat :: "nat \<Rightarrow> string" where
  "String_of_nat n =
     (if n < 10 then [digit_char n] else String_of_nat (n div 10) @ [digit_char (n mod 10)])"
  by pat_completeness auto
termination
  by (relation "measure (\<lambda>n. n)") auto

declare String_of_nat.simps [simp del]

subsection \<open>JSON\<close>

text \<open>
  JSON values. A number is given by the text \<^verbatim>\<open>String(n)\<close> of it, which is what the store's
  cast to a string needs; its digits are never computed here.
\<close>

datatype json =
    JNull
  | JBool bool
  | JNum string
  | JStr string
  | JArr "json list"
  | JObj "(string \<times> json) list"

text \<open>
  \<^verbatim>\<open>JSON.stringify\<close>, which the repository applies to arrays of strings only. Strings are
  read as UTF-8 bytes. A string is quoted as \<^verbatim>\<open>QuoteJSONString\<close> does: the quotation mark and
  the backslash are escaped, the control characters below \<open>0x20\<close> are written \<^verbatim>\<open>\b\<close>, \<^verbatim>\<open>\t\<close>,
  \<^verbatim>\<open>\n\<close>, \<^verbatim>\<open>\f\<close>, \<^verbatim>\<open>\r\<close> or \<^verbatim>\<open>\u00xx\<close>, every other byte stands for itself. The elements
  are separated by commas, without spaces.
\<close>

definition hex_digit :: "nat \<Rightarrow> char" where
  "hex_digit d = ''0123456789abcdef'' ! (d mod 16)"

definition quote_char :: "char \<Rightarrow> string" where
  "quote_char c =
     (if c = CHR 0x22 then [CHR 0x5C, CHR 0x22]
      else if c = CHR 0x5C then [CHR 0x5C, CHR 0x5C]
      else if c = CHR 0x08 then [CHR 0x5C, CHR ''b'']
      else if c = CHR 0x09 then [CHR 0x5C, CHR ''t'']
      else if c = CHR 0x0A then [CHR 0x5C, CHR ''n'']
      else if c = CHR 0x0C then [CHR 0x5C, CHR ''f'']
      else if c = CHR 0x0D then [CHR 0x5C, CHR ''r'']
      else if (of_char c :: nat) < 32
        then [CHR 0x5C, CHR ''u'', CHR ''0'', CHR ''0'',
              hex_digit (of_char c div 16), hex_digit (of_char c mod 16)]
      else [c])"

definition QuoteJSONString :: "string \<Rightarrow> string" where
  "QuoteJSONString s = CHR 0x22 # concat (map quote_char s) @ [CHR 0x22]"

fun join_commas :: "string list \<Rightarrow> string" where
  "join_commas [] = []"
| "join_commas [x] = x"
| "join_commas (x # y # xs) = x @ '','' @ join_commas (y # xs)"

definition JSON_stringify :: "string list \<Rightarrow> string" where
  "JSON_stringify ts = ''['' @ join_commas (map QuoteJSONString ts) @ '']''"

text \<open>
  \<^verbatim>\<open>JSON.parse\<close>. The texts that are an array of string literals, written without white
  space and with escapes of one byte (the texts \<open>JSON_stringify\<close> produces are of this
  kind), are read here; what the runtime makes of any other text is a parameter, \<open>None\<close>
  where the runtime throws a \<^verbatim>\<open>SyntaxError\<close>.
\<close>

record json_codec =
  parse_other :: "string \<Rightarrow> json option"

definition hex_value :: "char \<Rightarrow> nat option" where
  "hex_value c =
     (let n = (of_char c :: nat)
      in if 48 \<le> n \<and> n \<le> 57 then Some (n - 48)
         else if 97 \<le> n \<and> n \<le> 102 then Some (n - 87)
         else if 65 \<le> n \<and> n \<le> 70 then Some (n - 55)
         else None)"

definition unescape :: "char \<Rightarrow> char option" where
  "unescape e =
     (if e = CHR 0x22 then Some (CHR 0x22)
      else if e = CHR 0x5C then Some (CHR 0x5C)
      else if e = CHR ''/'' then Some (CHR ''/'')
      else if e = CHR ''b'' then Some (CHR 0x08)
      else if e = CHR ''t'' then Some (CHR 0x09)
      else if e = CHR ''n'' then Some (CHR 0x0A)
      else if e = CHR ''f'' then Some (CHR 0x0C)
      else if e = CHR ''r'' then Some (CHR 0x0D)
      else None)"

text \<open>
  Inside a string literal: \<open>cur\<close> holds the bytes of the literal read so far, \<open>acc\<close> the
  elements read before it. After the closing quotation mark comes the closing bracket,
  which must end the text, or a comma and the next literal.
\<close>

fun decode_str :: "string \<Rightarrow> string list \<Rightarrow> string \<Rightarrow> string list option" where
  "decode_str cur acc [] = None"
| "decode_str cur acc (c # cs) =
     (if c = CHR 0x22 then
        (case cs of
           [] \<Rightarrow> None
         | [b] \<Rightarrow> if b = CHR '']'' then Some (acc @ [cur]) else None
         | s # q # cs' \<Rightarrow>
             if s = CHR '','' \<and> q = CHR 0x22 then decode_str [] (acc @ [cur]) cs' else None)
      else if c = CHR 0x5C then
        (case cs of
           [] \<Rightarrow> None
         | e # cs' \<Rightarrow>
             if e = CHR ''u'' then
               (case cs' of
                  a # b # h # l # cs'' \<Rightarrow>
                    (case (hex_value a, hex_value b, hex_value h, hex_value l) of
                       (Some x3, Some x2, Some x1, Some x0) \<Rightarrow>
                         if x3 = 0 \<and> x2 = 0 \<and> 16 * x1 + x0 < 128
                         then decode_str (cur @ [char_of (16 * x1 + x0)]) acc cs''
                         else None
                     | _ \<Rightarrow> None)
                | _ \<Rightarrow> None)
             else (case unescape e of
                     None \<Rightarrow> None
                   | Some d \<Rightarrow> decode_str (cur @ [d]) acc cs'))
      else if (of_char c :: nat) < 32 then None
      else decode_str (cur @ [c]) acc cs)"

definition decode_string_array :: "string \<Rightarrow> string list option" where
  "decode_string_array s =
     (if s = ''[]'' then Some []
      else case s of
             b # q # cs \<Rightarrow> if b = CHR ''['' \<and> q = CHR 0x22 then decode_str [] [] cs else None
           | _ \<Rightarrow> None)"

definition JSON_parse :: "json_codec \<Rightarrow> string \<Rightarrow> json option" where
  "JSON_parse J s =
     (case decode_string_array s of
        Some ts \<Rightarrow> Some (JArr (map JStr ts))
      | None \<Rightarrow> parse_other J s)"

section \<open>Data model\<close>

text \<open>
  The \<^verbatim>\<open>enum\<close> of \<^verbatim>\<open>wallpaperSchema.source\<close> (models/Wallpaper.js). The field is a string;
  the enumeration is a validator, and neither \<^verbatim>\<open>findOneAndUpdate\<close> nor \<^verbatim>\<open>bulkWrite\<close> runs
  validators as the insert functions call them.
\<close>

definition wallpaperSchema_source_enum :: "string list" where
  "wallpaperSchema_source_enum = [''unsplash'', ''pexels'', ''gemini'']"

text \<open>The sources the two normalizers write.\<close>

definition provider_sources :: "string list" where
  "provider_sources = [''unsplash'', ''pexels'']"

text \<open>The id format of the data model: \<^verbatim>\<open>{source}_{external_id}\<close>.\<close>

definition derive_id :: "string \<Rightarrow> string \<Rightarrow> string" where
  "derive_id s e = s @ ''_'' @ e"

text \<open>
  The wallpaper object built by the two \<^verbatim>\<open>normalizePhoto\<close> functions and passed to the
  insert functions. \<^verbatim>\<open>is_featured: 0\<close> and \<^verbatim>\<open>is_ai_generated: 0\<close> are cast to \<open>False\<close> by the
  Boolean schema type. The type of \<open>wp_tags\<close> is a parameter: a JSON value in the object as
  the code builds it (\<open>JStr s\<close> when \<^verbatim>\<open>typeof tags === 'string'\<close>), the stored form once the
  schema has cast it.
\<close>

record 't wallpaper =
  wp_id :: string
  wp_source :: string
  wp_external_id :: string
  wp_title :: string
  wp_photographer :: string
  wp_photographer_url :: "string js"
  wp_url_thumb :: "string js"
  wp_url_regular :: "string js"
  wp_url_full :: "string js"
  wp_url_raw :: "string js"
  wp_width :: "nat js"
  wp_height :: "nat js"
  wp_color :: "string js"
  wp_blur_hash :: "string js"
  wp_category :: "string js"
  wp_tags :: 't
  wp_is_featured :: bool
  wp_is_ai_generated :: bool

text \<open>
  The stored form of \<^verbatim>\<open>tags: [String]\<close>: \<^verbatim>\<open>null\<close>, or an array whose elements are strings or
  \<^verbatim>\<open>null\<close>.
\<close>

datatype stored_tags = TagsNull | TagsArray "string option list"

text \<open>
  A stored document of the \<^verbatim>\<open>Wallpaper\<close> collection (models/Wallpaper.js): the schema
  fields, the \<^verbatim>\<open>downloads\<close> counter and the three timestamps. Times are natural numbers.
  \<open>None\<close> is a field that is absent or \<^verbatim>\<open>null\<close>.
\<close>

record wallpaper_doc =
  d_id :: string
  d_source :: string
  d_external_id :: "string option"
  d_title :: "string option"
  d_photographer :: "string option"
  d_photographer_url :: "string option"
  d_url_thumb :: "string option"
  d_url_regular :: "string option"
  d_url_full :: "string option"
  d_url_raw :: "string option"
  d_width :: "nat option"
  d_height :: "nat option"
  d_color :: "string option"
  d_blur_hash :: "string option"
  d_category :: "string option"
  d_tags :: stored_tags
  d_downloads :: nat
  d_is_featured :: bool
  d_is_ai_generated :: bool
  d_fetched_at :: nat
  d_created_at :: nat
  d_updated_at :: nat

text \<open>A document of the \<^verbatim>\<open>Category\<close> collection (models/Category.js).\<close>

record category =
  c_id :: nat
  c_slug :: string
  c_name :: string
  c_icon :: "string option"
  c_color :: "string option"
  c_wallpaper_count :: nat
  c_cover_image_url :: "string option"
  c_search_query :: "string option"

record database =
  db_wallpapers :: "wallpaper_doc list"
  db_categories :: "category list"

section \<open>Provider adapters (services/unsplash.js, services/pexels.js)\<close>

record unsplash_links =
  l_html :: "string option"

record unsplash_user =
  u_name :: "string option"
  u_links :: "unsplash_links option"

record unsplash_urls =
  uu_thumb :: "string js"
  uu_small :: "string js"
  uu_regular :: "string js"
  uu_full :: "string js"
  uu_raw :: "string js"

record unsplash_tag =
  t_title :: string

record unsplash_photo =
  up_id :: string
  up_description :: "string option"
  up_alt_description :: "string option"
  up_user :: "unsplash_user option"
  up_urls :: "unsplash_urls option"
  up_width :: "nat js"
  up_height :: "nat js"
  up_color :: "string js"
  up_blur_hash :: "string js"
  up_tags :: "unsplash_tag list option"

record pexels_src =
  ps_tiny :: "string js"
  ps_small :: "string js"
  ps_medium :: "string js"
  ps_large :: "string js"
  ps_large2x :: "string js"
  ps_original :: "string js"

record pexels_photo =
  pp_id :: nat
  pp_alt :: "string option"
  pp_photographer :: "string option"
  pp_photographer_url :: "string option"
  pp_src :: "pexels_src option"
  pp_width :: "nat js"
  pp_height :: "nat js"
  pp_avg_color :: "string js"

text \<open>
  Optional chaining \<^verbatim>\<open>a?.f\<close>: \<^verbatim>\<open>undefined\<close> when \<open>a\<close> is missing; \<open>opt_chain\<close> where the result
  only feeds \<^verbatim>\<open>||\<close>, \<open>js_chain\<close> where it is passed on.
\<close>

definition opt_chain :: "'a option \<Rightarrow> ('a \<Rightarrow> 'b option) \<Rightarrow> 'b option" where
  "opt_chain a f = (case a of None \<Rightarrow> None | Some x \<Rightarrow> f x)"

definition js_chain :: "'a option \<Rightarrow> ('a \<Rightarrow> 'b js) \<Rightarrow> 'b js" where
  "js_chain a f = (case a of None \<Rightarrow> Undefined | Some x \<Rightarrow> f x)"

text \<open>The category argument is a slug or \<^verbatim>\<open>null\<close>.\<close>

definition js_of_option :: "'a option \<Rightarrow> 'a js" where
  "js_of_option a = (case a of None \<Rightarrow> Null | Some x \<Rightarrow> Val x)"

definition unsplash_normalizePhoto :: "unsplash_photo \<Rightarrow> string option \<Rightarrow> json wallpaper" where
  "unsplash_normalizePhoto photo category =
     \<lparr> wp_id = ''unsplash_'' @ up_id photo,
       wp_source = ''unsplash'',
       wp_external_id = up_id photo,
       wp_title = js_or_lit (js_or (up_description photo) (up_alt_description photo)) ''Untitled'',
       wp_photographer = js_or_lit (opt_chain (up_user photo) u_name) ''Unknown'',
       wp_photographer_url =
         js_or_null (opt_chain (opt_chain (up_user photo) u_links) l_html),
       wp_url_thumb =
         js_or_val (js_chain (up_urls photo) uu_thumb) (js_chain (up_urls photo) uu_small),
       wp_url_regular = js_chain (up_urls photo) uu_regular,
       wp_url_full = js_chain (up_urls photo) uu_full,
       wp_url_raw = js_chain (up_urls photo) uu_raw,
       wp_width = up_width photo,
       wp_height = up_height photo,
       wp_color = up_color photo,
       wp_blur_hash = up_blur_hash photo,
       wp_category = js_of_option category,
       wp_tags = JStr (JSON_stringify
         (case up_tags photo of None \<Rightarrow> [] | Some ts \<Rightarrow> map t_title ts)),
       wp_is_featured = False,
       wp_is_ai_generated = False \<rparr>"

definition pexels_normalizePhoto :: "pexels_photo \<Rightarrow> string option \<Rightarrow> json wallpaper" where
  "pexels_normalizePhoto photo category =
     \<lparr> wp_id = ''pexels_'' @ String_of_nat (pp_id photo),
       wp_source = ''pexels'',
       wp_external_id = String_of_nat (pp_id photo),
       wp_title = js_or_lit (pp_alt photo) ''Untitled'',
       wp_photographer = js_or_lit (pp_photographer photo) ''Unknown'',
       wp_photographer_url = js_or_null (pp_photographer_url photo),
       wp_url_thumb =
         js_or_val (js_chain (pp_src photo) ps_tiny) (js_chain (pp_src photo) ps_small),
       wp_url_regular =
         js_or_val (js_chain (pp_src photo) ps_large) (js_chain (pp_src photo) ps_medium),
       wp_url_full =
         js_or_val (js_chain (pp_src photo) ps_large2x) (js_chain (pp_src photo) ps_original),
       wp_url_raw = js_chain (pp_src photo) ps_original,
       wp_width = pp_width photo,
       wp_height = pp_height photo,
       wp_color = pp_avg_color photo,
       wp_blur_hash = Null,
       wp_category = js_of_option category,
       wp_tags = JStr (JSON_stringify []),
       wp_is_featured = False,
       wp_is_ai_generated = False \<rparr>"

text \<open>
  The HTTP clients are the outside world: a request either fails with a message or
  returns the list found in the response (\<open>None\<close> when the response carries no list, which
  \<^verbatim>\<open>|| []\<close> turns into the empty list). \<^verbatim>\<open>console.error\<close> lines and outbound requests are
  recorded as events; \<^verbatim>\<open>console.log\<close> lines are not modelled.
\<close>

datatype error = RequestFailed string | DuplicateKey | CastError

datatype provider = Unsplash | Pexels

datatype console_error =
    UnsplashSearchError
  | PexelsSearchError
  | BothApisFailed string
  | ErrorFetching string

datatype event =
    Request provider "string option" nat nat
  | ConsoleError console_error

record upstream =
  unsplash_get :: "string option \<Rightarrow> nat \<Rightarrow> nat \<Rightarrow> string + unsplash_photo list option"
  pexels_get :: "string option \<Rightarrow> nat \<Rightarrow> nat \<Rightarrow> string + pexels_photo list option"

definition unsplash_searchPhotos ::
  "upstream \<Rightarrow> string option \<Rightarrow> string option \<Rightarrow> nat \<Rightarrow> nat
     \<Rightarrow> (error + json wallpaper list) \<times> event list" where
  "unsplash_searchPhotos up query category page perPage =
     (case unsplash_get up query page perPage of
        Inl msg \<Rightarrow>
          (Inl (RequestFailed msg),
           [Request Unsplash query page perPage, ConsoleError UnsplashSearchError])
      | Inr results \<Rightarrow>
          (Inr (map (\<lambda>photo. unsplash_normalizePhoto photo category)
                  (case results of None \<Rightarrow> [] | Some photos \<Rightarrow> photos)),
           [Request Unsplash query page perPage]))"

definition pexels_searchPhotos ::
  "upstream \<Rightarrow> string option \<Rightarrow> string option \<Rightarrow> nat \<Rightarrow> nat
     \<Rightarrow> (error + json wallpaper list) \<times> event list" where
  "pexels_searchPhotos up query category page perPage =
     (case pexels_get up query page perPage of
        Inl msg \<Rightarrow>
          (Inl (RequestFailed msg),
           [Request Pexels query page perPage, ConsoleError PexelsSearchError])
      | Inr results \<Rightarrow>
          (Inr (map (\<lambda>photo. pexels_normalizePhoto photo category)
                  (case results of None \<Rightarrow> [] | Some photos \<Rightarrow> photos)),
           [Request Pexels query page perPage]))"

section \<open>Catalog store (services/database.js over the Wallpaper and Category models)\<close>

text \<open>
  The collection is the list of its documents. The schema declares the unique compound
  index \<^verbatim>\<open>{ external_id: 1, source: 1 }\<close>; a document without \<^verbatim>\<open>external_id\<close> is indexed
  under \<open>None\<close>.
\<close>

definition index_key :: "wallpaper_doc \<Rightarrow> string option \<times> string" where
  "index_key d = (d_external_id d, d_source d)"

definition countDocuments :: "(wallpaper_doc \<Rightarrow> bool) \<Rightarrow> wallpaper_doc list \<Rightarrow> nat" where
  "countDocuments q st = length (filter q st)"

definition wallpaperExists :: "wallpaper_doc list \<Rightarrow> string \<Rightarrow> string \<Rightarrow> bool" where
  "wallpaperExists st externalId src =
     (let count = countDocuments (\<lambda>d. d_external_id d = Some externalId \<and> d_source d = src) st
      in count > 0)"

text \<open>
  The cast of the schema type \<^verbatim>\<open>[String]\<close>, applied to \<^verbatim>\<open>tags\<close> before anything is sent to
  the database; \<open>None\<close> is a \<^verbatim>\<open>CastError\<close>. \<^verbatim>\<open>null\<close> stays \<^verbatim>\<open>null\<close>; a value that is not an
  array is cast as the array holding it; the elements of an array are cast to strings:
  \<^verbatim>\<open>null\<close> stays, a string stays, a number and a boolean give their \<^verbatim>\<open>toString()\<close>, an object
  gives its \<^verbatim>\<open>_id\<close> when that is a non-empty string and is refused otherwise, an array is
  refused.
\<close>

fun cast_elem :: "json \<Rightarrow> string option option" where
  "cast_elem JNull = Some None"
| "cast_elem (JStr s) = Some (Some s)"
| "cast_elem (JNum n) = Some (Some n)"
| "cast_elem (JBool b) = Some (Some (if b then ''true'' else ''false''))"
| "cast_elem (JArr vs) = None"
| "cast_elem (JObj kvs) =
     (case map_of (rev kvs) ''_id'' of
        Some (JStr s) \<Rightarrow> if s \<noteq> [] then Some (Some s) else None
      | _ \<Rightarrow> None)"

fun cast_elems :: "json list \<Rightarrow> string option list option" where
  "cast_elems [] = Some []"
| "cast_elems (v # vs) =
     (case cast_elem v of
        None \<Rightarrow> None
      | Some x \<Rightarrow> (case cast_elems vs of None \<Rightarrow> None | Some xs \<Rightarrow> Some (x # xs)))"

definition cast_tags :: "json \<Rightarrow> stored_tags option" where
  "cast_tags t =
     (case t of
        JNull \<Rightarrow> Some TagsNull
      | JArr vs \<Rightarrow> map_option TagsArray (cast_elems vs)
      | _ \<Rightarrow> map_option (\<lambda>x. TagsArray [x]) (cast_elem t))"

definition cast_doc :: "json wallpaper \<Rightarrow> stored_tags wallpaper option" where
  "cast_doc doc =
     (case cast_tags (wp_tags doc) of
        None \<Rightarrow> None
      | Some tags \<Rightarrow>
          Some \<lparr> wp_id = wp_id doc,
                 wp_source = wp_source doc,
                 wp_external_id = wp_external_id doc,
                 wp_title = wp_title doc,
                 wp_photographer = wp_photographer doc,
                 wp_photographer_url = wp_photographer_url doc,
                 wp_url_thumb = wp_url_thumb doc,
                 wp_url_regular = wp_url_regular doc,
                 wp_url_full = wp_url_full doc,
                 wp_url_raw = wp_url_raw doc,
                 wp_width = wp_width doc,
                 wp_height = wp_height doc,
                 wp_color = wp_color doc,
                 wp_blur_hash = wp_blur_hash doc,
                 wp_category = wp_category doc,
                 wp_tags = tags,
                 wp_is_featured = wp_is_featured doc,
                 wp_is_ai_generated = wp_is_ai_generated doc \<rparr>)"

fun cast_all :: "json wallpaper list \<Rightarrow> stored_tags wallpaper list option" where
  "cast_all [] = Some []"
| "cast_all (doc # docs) =
     (case cast_doc doc of
        None \<Rightarrow> None
      | Some d \<Rightarrow> (case cast_all docs of None \<Rightarrow> None | Some ds \<Rightarrow> Some (d # ds)))"

text \<open>
  One key of \<^verbatim>\<open>{ $set: doc }\<close>: a key whose value is \<^verbatim>\<open>undefined\<close> is dropped from the update
  and the stored field stays; \<^verbatim>\<open>null\<close> is written as \<^verbatim>\<open>null\<close>.
\<close>

definition set_field :: "'a js \<Rightarrow> 'a option \<Rightarrow> 'a option" where
  "set_field v old = (case v of Undefined \<Rightarrow> old | Null \<Rightarrow> None | Val x \<Rightarrow> Some x)"

text \<open>
  \<^verbatim>\<open>{ $set: doc }\<close> on a stored document: the fields of \<open>doc\<close> are written, the schema's
  timestamps refresh \<^verbatim>\<open>updated_at\<close>; \<^verbatim>\<open>downloads\<close>, \<^verbatim>\<open>fetched_at\<close> and \<^verbatim>\<open>created_at\<close> are
  not part of \<open>doc\<close> and stay.
\<close>

definition apply_set :: "nat \<Rightarrow> stored_tags wallpaper \<Rightarrow> wallpaper_doc \<Rightarrow> wallpaper_doc" where
  "apply_set now doc d =
     d \<lparr> d_source := wp_source doc,
         d_external_id := Some (wp_external_id doc),
         d_title := Some (wp_title doc),
         d_photographer := Some (wp_photographer doc),
         d_photographer_url := set_field (wp_photographer_url doc) (d_photographer_url d),
         d_url_thumb := set_field (wp_url_thumb doc) (d_url_thumb d),
         d_url_regular := set_field (wp_url_regular doc) (d_url_regular d),
         d_url_full := set_field (wp_url_full doc) (d_url_full d),
         d_url_raw := set_field (wp_url_raw doc) (d_url_raw d),
         d_width := set_field (wp_width doc) (d_width d),
         d_height := set_field (wp_height doc) (d_height d),
         d_color := set_field (wp_color doc) (d_color d),
         d_blur_hash := set_field (wp_blur_hash doc) (d_blur_hash d),
         d_category := set_field (wp_category doc) (d_category d),
         d_tags := wp_tags doc,
         d_is_featured := wp_is_featured doc,
         d_is_ai_generated := wp_is_ai_generated doc,
         d_updated_at := now \<rparr>"

text \<open>
  The document an upsert inserts when the filter matches nothing: the filter's \<^verbatim>\<open>_id\<close>, the
  fields of \<open>doc\<close>, and the schema defaults (\<^verbatim>\<open>downloads: 0\<close>, \<^verbatim>\<open>fetched_at: Date.now\<close>, both
  timestamps).
\<close>

definition new_document :: "nat \<Rightarrow> stored_tags wallpaper \<Rightarrow> wallpaper_doc" where
  "new_document now doc =
     \<lparr> d_id = wp_id doc,
       d_source = wp_source doc,
       d_external_id = Some (wp_external_id doc),
       d_title = Some (wp_title doc),
       d_photographer = Some (wp_photographer doc),
       d_photographer_url = set_field (wp_photographer_url doc) None,
       d_url_thumb = set_field (wp_url_thumb doc) None,
       d_url_regular = set_field (wp_url_regular doc) None,
       d_url_full = set_field (wp_url_full doc) None,
       d_url_raw = set_field (wp_url_raw doc) None,
       d_width = set_field (wp_width doc) None,
       d_height = set_field (wp_height doc) None,
       d_color = set_field (wp_color doc) None,
       d_blur_hash = set_field (wp_blur_hash doc) None,
       d_category = set_field (wp_category doc) None,
       d_tags = wp_tags doc,
       d_downloads = 0,
       d_is_featured = wp_is_featured doc,
       d_is_ai_generated = wp_is_ai_generated doc,
       d_fetched_at = now,
       d_created_at = now,
       d_updated_at = now \<rparr>"

text \<open>
  \<^verbatim>\<open>updateOne\<close> with \<^verbatim>\<open>filter: { _id: doc._id }\<close> and \<^verbatim>\<open>upsert: true\<close>: the first document
  with that \<^verbatim>\<open>_id\<close> is updated, and a new one is appended when there is none.
\<close>

fun upsert_doc ::
  "nat \<Rightarrow> stored_tags wallpaper \<Rightarrow> wallpaper_doc list \<Rightarrow> wallpaper_doc list" where
  "upsert_doc now doc [] = [new_document now doc]"
| "upsert_doc now doc (d # ds) =
     (if d_id d = wp_id doc then apply_set now doc d # ds else d # upsert_doc now doc ds)"

text \<open>
  The unique index rejects the write (error E11000) when another document, one with a
  different \<^verbatim>\<open>_id\<close>, already holds the \<^verbatim>\<open>(external_id, source)\<close> key the written document
  would get; the collection is then unchanged.
\<close>

definition updateOne_upsert ::
  "nat \<Rightarrow> stored_tags wallpaper \<Rightarrow> wallpaper_doc list \<Rightarrow> error + wallpaper_doc list" where
  "updateOne_upsert now doc st =
     (if \<exists>d \<in> set st. d_id d \<noteq> wp_id doc
            \<and> index_key d = (Some (wp_external_id doc), wp_source doc)
      then Inl DuplicateKey
      else Inr (upsert_doc now doc st))"

text \<open>
  \<^verbatim>\<open>Wallpaper.bulkWrite(bulkOps)\<close>, ordered. Every operation is cast first, and a
  \<^verbatim>\<open>CastError\<close> rejects the call before anything is written. Then the operations run in
  order and the first failing one stops the batch; what was written before it stays.
\<close>

fun bulkWrite_run ::
  "nat \<Rightarrow> stored_tags wallpaper list \<Rightarrow> wallpaper_doc list
     \<Rightarrow> wallpaper_doc list \<times> error option" where
  "bulkWrite_run now [] st = (st, None)"
| "bulkWrite_run now (doc # ops) st =
     (case updateOne_upsert now doc st of
        Inl e \<Rightarrow> (st, Some e)
      | Inr st' \<Rightarrow> bulkWrite_run now ops st')"

definition bulkWrite ::
  "nat \<Rightarrow> json wallpaper list \<Rightarrow> wallpaper_doc list \<Rightarrow> wallpaper_doc list \<times> error option" where
  "bulkWrite now bulkOps st =
     (case cast_all bulkOps of
        None \<Rightarrow> (st, Some CastError)
      | Some ops \<Rightarrow> bulkWrite_run now ops st)"

text \<open>
  The preparation both insert functions apply to a wallpaper object: \<^verbatim>\<open>id\<close> becomes \<^verbatim>\<open>_id\<close>
  (every wallpaper object of the model carries its id, so the test \<^verbatim>\<open>if (doc.id)\<close> is not
  represented), and a \<^verbatim>\<open>tags\<close> string is parsed, the empty array replacing it when
  \<^verbatim>\<open>JSON.parse\<close> throws.
\<close>

definition fix_tags :: "json_codec \<Rightarrow> json \<Rightarrow> json" where
  "fix_tags J t =
     (case t of
        JStr s \<Rightarrow> (case JSON_parse J s of Some v \<Rightarrow> v | None \<Rightarrow> JArr [])
      | _ \<Rightarrow> t)"

definition prepare_doc :: "json_codec \<Rightarrow> json wallpaper \<Rightarrow> json wallpaper" where
  "prepare_doc J w = w \<lparr> wp_tags := fix_tags J (wp_tags w) \<rparr>"

text \<open>\<^verbatim>\<open>findOneAndUpdate\<close> casts the update, then runs it as an upsert.\<close>

definition insertWallpaper ::
  "json_codec \<Rightarrow> nat \<Rightarrow> json wallpaper \<Rightarrow> wallpaper_doc list \<Rightarrow> error + wallpaper_doc list" where
  "insertWallpaper J now wallpaperData st =
     (case cast_doc (prepare_doc J wallpaperData) of
        None \<Rightarrow> Inl CastError
      | Some doc \<Rightarrow> updateOne_upsert now doc st)"

definition insertWallpapers ::
  "json_codec \<Rightarrow> nat \<Rightarrow> json wallpaper list \<Rightarrow> wallpaper_doc list
     \<Rightarrow> wallpaper_doc list \<times> error option" where
  "insertWallpapers J now ws st =
     (let bulkOps = map (prepare_doc J) ws
      in if length bulkOps > 0 then bulkWrite now bulkOps st else (st, None))"

definition getCategories :: "database \<Rightarrow> category list" where
  "getCategories db = sort_key c_name (db_categories db)"

text \<open>\<^verbatim>\<open>Category.updateOne({ _id: cat._id }, { wallpaper_count: count })\<close>.\<close>

fun Category_updateOne :: "nat \<Rightarrow> nat \<Rightarrow> category list \<Rightarrow> category list" where
  "Category_updateOne i count [] = []"
| "Category_updateOne i count (c # cs) =
     (if c_id c = i then c \<lparr> c_wallpaper_count := count \<rparr> # cs
      else c # Category_updateOne i count cs)"

fun updateCategoryCounts_loop ::
  "wallpaper_doc list \<Rightarrow> category list \<Rightarrow> category list \<Rightarrow> category list" where
  "updateCategoryCounts_loop ws [] stored = stored"
| "updateCategoryCounts_loop ws (cat # rest) stored =
     (let count = countDocuments (\<lambda>d. d_category d = Some (c_slug cat)) ws
      in updateCategoryCounts_loop ws rest (Category_updateOne (c_id cat) count stored))"

definition updateCategoryCounts :: "database \<Rightarrow> database" where
  "updateCategoryCounts db =
     db \<lparr> db_categories :=
            updateCategoryCounts_loop (db_wallpapers db) (db_categories db) (db_categories db) \<rparr>"

section \<open>Ingestion job (jobs/fetchWallpapers.js)\<close>

text \<open>
  A call either returns a count or throws; in both cases the collection it leaves and the
  events it produced are part of the result. The writes of one call carry the time \<open>now\<close>
  of the call; the pacing delays between categories are not modelled.
\<close>

datatype outcome = Returned nat | Threw error

definition fetchCategoryWallpapers ::
  "json_codec \<Rightarrow> upstream \<Rightarrow> nat \<Rightarrow> wallpaper_doc list \<Rightarrow> category \<Rightarrow> nat
     \<Rightarrow> outcome \<times> wallpaper_doc list \<times> event list" where
  "fetchCategoryWallpapers J up now st category perPage =
     (let (r1, t1) =
            unsplash_searchPhotos up (c_search_query category) (Some (c_slug category)) 1 perPage;
          (r2, t2) =
            (case r1 of
               Inr ws \<Rightarrow> (Inr ws, [])
             | Inl e \<Rightarrow>
                 pexels_searchPhotos up (c_search_query category) (Some (c_slug category)) 1 perPage)
      in case r2 of
           Inl pexelsError \<Rightarrow>
             (Returned 0, st, t1 @ t2 @ [ConsoleError (BothApisFailed (c_name category))])
         | Inr wallpapers \<Rightarrow>
             (let newWallpapers =
                    filter (\<lambda>w. \<not> wallpaperExists st (wp_external_id w) (wp_source w)) wallpapers
              in if length newWallpapers > 0
                 then (case insertWallpapers J now newWallpapers st of
                         (st', None) \<Rightarrow> (Returned (length newWallpapers), st', t1 @ t2)
                       | (st', Some e) \<Rightarrow> (Threw e, st', t1 @ t2))
                 else (Returned 0, st, t1 @ t2)))"

text \<open>
  The loop of \<^verbatim>\<open>fetchAllCategoryWallpapers\<close>: a category whose call throws is logged and
  adds nothing to the total.
\<close>

fun fetchAll_loop ::
  "json_codec \<Rightarrow> upstream \<Rightarrow> nat \<Rightarrow> category list \<Rightarrow> wallpaper_doc list \<Rightarrow> nat \<Rightarrow> event list
     \<Rightarrow> nat \<times> wallpaper_doc list \<times> event list" where
  "fetchAll_loop J up now [] st totalNew tr = (totalNew, st, tr)"
| "fetchAll_loop J up now (category # rest) st totalNew tr =
     (case fetchCategoryWallpapers J up now st category 20 of
        (Returned count, st', t) \<Rightarrow> fetchAll_loop J up now rest st' (totalNew + count) (tr @ t)
      | (Threw e, st', t) \<Rightarrow>
          fetchAll_loop J up now rest st' totalNew
            (tr @ t @ [ConsoleError (ErrorFetching (c_name category))]))"

definition fetchAllCategoryWallpapers ::
  "json_codec \<Rightarrow> upstream \<Rightarrow> nat \<Rightarrow> database \<Rightarrow> nat \<times> database \<times> event list" where
  "fetchAllCategoryWallpapers J up now db =
     (let categories = getCategories db;
          (totalNew, st, tr) = fetchAll_loop J up now categories (db_wallpapers db) 0 []
      in (totalNew, updateCategoryCounts (db \<lparr> db_wallpapers := st \<rparr>), tr))"

section \<open>Page cursor (services/cronJobs.js)\<close>

text \<open>
  The module variable \<^verbatim>\<open>currentPage\<close> and the two assignments at the start of
  \<^verbatim>\<open>runFetchJob\<close> that advance it.
\<close>

record current_page =
  cp_unsplash :: nat
  cp_pexels :: nat

definition currentPage_init :: current_page where
  "currentPage_init = \<lparr> cp_unsplash = 1, cp_pexels = 1 \<rparr>"

definition runFetchJob_advance :: "current_page \<Rightarrow> current_page" where
  "runFetchJob_advance currentPage =
     (let p = cp_pexels currentPage mod 10 + 1;
          u = cp_unsplash currentPage mod 5 + 1
      in \<lparr> cp_unsplash = u, cp_pexels = p \<rparr>)"

section \<open>Notions used to state the properties\<close>

text \<open>
  A fallback chain as the specification words it: the first entry that is present and
  not empty, and the literal when there is none.
\<close>

fun first_present :: "string option list \<Rightarrow> string \<Rightarrow> string" where
  "first_present [] lit = lit"
| "first_present (None # xs) lit = first_present xs lit"
| "first_present (Some s # xs) lit = (if s = [] then first_present xs lit else s)"

text \<open>A category with its counter recomputed from a wallpaper collection.\<close>

definition count_for :: "wallpaper_doc list \<Rightarrow> category \<Rightarrow> category" where
  "count_for ws c =
     c \<lparr> c_wallpaper_count := length (filter (\<lambda>d. d_category d = Some (c_slug c)) ws) \<rparr>"

text \<open>The index key a wallpaper object gets when it is written.\<close>

definition wp_key :: "'t wallpaper \<Rightarrow> string option \<times> string" where
  "wp_key w = (Some (wp_external_id w), wp_source w)"

text \<open>A wallpaper object of one of the two providers whose id follows the id format.\<close>

definition derived_wp :: "'t wallpaper \<Rightarrow> bool" where
  "derived_wp w =
     (wp_id w = derive_id (wp_source w) (wp_external_id w) \<and> wp_source w \<in> set provider_sources)"

text \<open>
  The data-model condition on a stored collection: a stored \<^verbatim>\<open>_id\<close> of the form
  \<^verbatim>\<open>unsplash_{x}\<close> or \<^verbatim>\<open>pexels_{x}\<close> belongs to the document of that source whose external
  id is \<open>x\<close>. Documents with other ids (generated ones, say) are not constrained.
\<close>

definition id_matches :: "wallpaper_doc \<Rightarrow> string \<Rightarrow> bool" where
  "id_matches d s =
     (let p = s @ ''_''
      in if take (length p) (d_id d) = p
         then index_key d = (Some (drop (length p) (d_id d)), s)
         else True)"

definition ids_derived :: "wallpaper_doc list \<Rightarrow> bool" where
  "ids_derived st = list_all (\<lambda>d. list_all (id_matches d) provider_sources) st"

text \<open>
  What the two adapters deliver for a category in \<^verbatim>\<open>fetchCategoryWallpapers\<close>: the primary
  result, the secondary result when the primary fails, \<open>None\<close> when both fail.
\<close>

definition category_batch :: "upstream \<Rightarrow> category \<Rightarrow> nat \<Rightarrow> json wallpaper list option" where
  "category_batch up category perPage =
     (case fst (unsplash_searchPhotos up (c_search_query category) (Some (c_slug category)) 1 perPage) of
        Inr ws \<Rightarrow> Some ws
      | Inl e \<Rightarrow>
          (case fst (pexels_searchPhotos up (c_search_query category) (Some (c_slug category)) 1 perPage) of
             Inr ws \<Rightarrow> Some ws
           | Inl e' \<Rightarrow> None))"

text \<open>The count a call contributes to the total of the job.\<close>

fun count_of :: "outcome \<Rightarrow> nat" where
  "count_of (Returned n) = n"
| "count_of (Threw e) = 0"

text \<open>
  The documents that already hold the key of a wallpaper object of \<open>K\<close> carry that
  object's id.
\<close>

definition agrees :: "'t wallpaper set \<Rightarrow> wallpaper_doc list \<Rightarrow> bool" where
  "agrees K st = (\<forall>d \<in> set st. \<forall>w \<in> K. index_key d = wp_key w \<longrightarrow> d_id d = wp_id w)"

text \<open>An object is writable when its prepared form passes the schema's cast.\<close>

definition writable :: "json_codec \<Rightarrow> json wallpaper \<Rightarrow> bool" where
  "writable J w = (cast_doc (prepare_doc J w) \<noteq> None)"

text \<open>The wallpaper objects of a batch whose pair is not yet in the collection.\<close>

definition fresh :: "wallpaper_doc list \<Rightarrow> 't wallpaper list \<Rightarrow> 't wallpaper list" where
  "fresh st ws = filter (\<lambda>w. \<not> wallpaperExists st (wp_external_id w) (wp_source w)) ws"

text \<open>The events of the adapter calls of \<^verbatim>\<open>fetchCategoryWallpapers\<close> for a category.\<close>

definition category_events :: "upstream \<Rightarrow> category \<Rightarrow> nat \<Rightarrow> event list" where
  "category_events up category perPage =
     (let q = c_search_query category
      in case unsplash_get up q 1 perPage of
           Inr r \<Rightarrow> [Request Unsplash q 1 perPage]
         | Inl m \<Rightarrow>
             [Request Unsplash q 1 perPage, ConsoleError UnsplashSearchError]
             @ (case pexels_get up q 1 perPage of
                  Inr r \<Rightarrow> [Request Pexels q 1 perPage]
                | Inl m' \<Rightarrow>
                    [Request Pexels q 1 perPage, ConsoleError PexelsSearchError,
                     ConsoleError (BothApisFailed (c_name category))]))"

text \<open>
  A sequence of writes to the catalog, each at its time, through either insert function.
  A failing write leaves what it wrote before the failure.
\<close>

datatype catalog_write = InsertOne "json wallpaper" | InsertMany "json wallpaper list"

fun apply_write :: "json_codec \<Rightarrow> wallpaper_doc list \<Rightarrow> nat \<times> catalog_write \<Rightarrow> wallpaper_doc list" where
  "apply_write J st (now, InsertOne w) =
     (case insertWallpaper J now w st of Inl e \<Rightarrow> st | Inr st' \<Rightarrow> st')"
| "apply_write J st (now, InsertMany ws) = fst (insertWallpapers J now ws st)"

text \<open>The tags stored under an id, and stored tags that are an array of strings.\<close>

definition tags_of :: "wallpaper_doc list \<Rightarrow> string \<Rightarrow> stored_tags option" where
  "tags_of st i = map_option d_tags (find (\<lambda>d. d_id d = i) st)"

fun string_tags :: "stored_tags \<Rightarrow> bool" where
  "string_tags TagsNull = False"
| "string_tags (TagsArray xs) = list_all (\<lambda>x. x \<noteq> None) xs"

text \<open>The tag titles of an Unsplash photo, the empty list when it has none.\<close>

definition photo_titles :: "unsplash_photo \<Rightarrow> string list" where
  "photo_titles photo = (case up_tags photo of None \<Rightarrow> [] | Some ts \<Rightarrow> map t_title ts)"

section \<open>Example data\<close>

text \<open>
  A catalog with one stored Unsplash record, three categories, and upstream answers, used
  to run the definitions on concrete inputs. \<open>ex_codec\<close> is a finite table of what the
  runtime's \<^verbatim>\<open>JSON.parse\<close> makes of the other texts the examples use: \<^verbatim>\<open>null\<close> and \<^verbatim>\<open>{}\<close> are
  read, texts that are not JSON throw.
\<close>

definition ex_codec :: json_codec where
  "ex_codec =
     \<lparr> parse_other = (\<lambda>s. if s = ''null'' then Some JNull
                          else if s = ''{}'' then Some (JObj [])
                          else None) \<rparr>"

definition ex_doc :: wallpaper_doc where
  "ex_doc =
     \<lparr> d_id = ''unsplash_42'', d_source = ''unsplash'', d_external_id = Some ''42'',
       d_title = Some ''Old'', d_photographer = Some ''Ann'', d_photographer_url = None,
       d_url_thumb = Some ''t0'', d_url_regular = Some ''r0'', d_url_full = Some ''f0'',
       d_url_raw = None, d_width = None, d_height = None, d_color = None, d_blur_hash = None,
       d_category = Some ''nature'', d_tags = TagsArray [Some ''old''], d_downloads = 7,
       d_is_featured = False, d_is_ai_generated = False, d_fetched_at = 1, d_created_at = 1,
       d_updated_at = 1 \<rparr>"

definition ex_photo :: unsplash_photo where
  "ex_photo =
     \<lparr> up_id = ''42'', up_description = Some ''New'', up_alt_description = Some ''Alt'',
       up_user = Some \<lparr> u_name = Some ''Ann'', u_links = None \<rparr>,
       up_urls = Some \<lparr> uu_thumb = Val ''t1'', uu_small = Undefined, uu_regular = Val ''r1'',
                        uu_full = Val ''f1'', uu_raw = Undefined \<rparr>,
       up_width = Undefined, up_height = Undefined, up_color = Null, up_blur_hash = Null,
       up_tags = Some [\<lparr> t_title = ''sky'' \<rparr>] \<rparr>"

definition ex_pexels_photo :: pexels_photo where
  "ex_pexels_photo =
     \<lparr> pp_id = 7, pp_alt = Some [], pp_photographer = None, pp_photographer_url = None,
       pp_src = Some \<lparr> ps_tiny = Undefined, ps_small = Val ''s7'', ps_medium = Val ''m7'',
                       ps_large = Undefined, ps_large2x = Undefined, ps_original = Val ''o7'' \<rparr>,
       pp_width = Undefined, pp_height = Undefined, pp_avg_color = Undefined \<rparr>"

definition ex_category :: "nat \<Rightarrow> string \<Rightarrow> string \<Rightarrow> category" where
  "ex_category i slug name =
     \<lparr> c_id = i, c_slug = slug, c_name = name, c_icon = None, c_color = None,
       c_wallpaper_count = 0, c_cover_image_url = None, c_search_query = Some slug \<rparr>"

definition ex_db :: database where
  "ex_db =
     \<lparr> db_wallpapers = [ex_doc],
       db_categories = [ex_category 1 ''nature'' ''Nature'', ex_category 2 ''city'' ''City'',
                        ex_category 3 ''space'' ''Space''] \<rparr>"

text \<open>Unsplash answers every search with the one photo; Pexels is down.\<close>

definition ex_upstream :: upstream where
  "ex_upstream =
     \<lparr> unsplash_get = (\<lambda>q page perPage. Inr (Some [ex_photo])),
       pexels_get = (\<lambda>q page perPage. Inl ''timeout'') \<rparr>"

text \<open>Unsplash is down; Pexels answers every search but the one for \<open>nature\<close>.\<close>

definition ex_upstream_fallback :: upstream where
  "ex_upstream_fallback =
     \<lparr> unsplash_get = (\<lambda>q page perPage. Inl ''rate limit''),
       pexels_get = (\<lambda>q page perPage.
          if q = Some ''nature'' then Inl ''timeout'' else Inr (Some [ex_pexels_photo])) \<rparr>"

text \<open>
  Two wallpaper objects that collide with the stored record: one with the stored pair
  under another id, one with the stored id under another pair.
\<close>

definition ex_same_pair :: "json wallpaper" where
  "ex_same_pair =
     \<lparr> wp_id = ''u-42'', wp_source = ''unsplash'', wp_external_id = ''42'', wp_title = ''New'',
       wp_photographer = ''Ann'', wp_photographer_url = Null, wp_url_thumb = Val ''t1'',
       wp_url_regular = Val ''r1'', wp_url_full = Val ''f1'', wp_url_raw = Undefined,
       wp_width = Undefined, wp_height = Undefined, wp_color = Undefined,
       wp_blur_hash = Undefined, wp_category = Val ''nature'', wp_tags = JStr ''[]'',
       wp_is_featured = False, wp_is_ai_generated = False \<rparr>"

definition ex_same_id :: "json wallpaper" where
  "ex_same_id =
     ex_same_pair \<lparr> wp_id := ''unsplash_42'', wp_source := ''pexels'', wp_external_id := ''7'' \<rparr>"

text \<open>
  A catalog that does not meet the data-model condition: the Pexels record 8 is stored
  under the id \<^verbatim>\<open>pexels_7\<close>. Unsplash is down and Pexels delivers the photos 7 and 8.
\<close>

definition ex_misfiled_db :: database where
  "ex_misfiled_db =
     \<lparr> db_wallpapers =
         [ex_doc \<lparr> d_id := ''pexels_7'', d_source := ''pexels'', d_external_id := Some ''8'' \<rparr>],
       db_categories = [ex_category 1 ''nature'' ''Nature''] \<rparr>"

definition ex_upstream_two :: upstream where
  "ex_upstream_two =
     \<lparr> unsplash_get = (\<lambda>q page perPage. Inl ''rate limit''),
       pexels_get = (\<lambda>q page perPage.
          Inr (Some [ex_pexels_photo, ex_pexels_photo \<lparr> pp_id := 8 \<rparr>])) \<rparr>"

section \<open>Properties\<close>

subsection \<open>JSON round trip\<close>

lemma hex_value_hex_digit: "d < 16 \<Longrightarrow> hex_value (hex_digit d) = Some d"
proof -
  assume "d < 16"
  then have "d = 0 \<or> d = 1 \<or> d = 2 \<or> d = 3 \<or> d = 4 \<or> d = 5 \<or> d = 6 \<or> d = 7
      \<or> d = 8 \<or> d = 9 \<or> d = 10 \<or> d = 11 \<or> d = 12 \<or> d = 13 \<or> d = 14 \<or> d = 15"
    by arith
  then show ?thesis
    by (auto simp: hex_digit_def hex_value_def)
qed

lemma hex_value_zero: "hex_value (CHR ''0'') = Some 0"
  by (simp add: hex_value_def)

lemma decode_str_quote_char:
  "decode_str cur acc (quote_char c @ rest) = decode_str (cur @ [c]) acc rest"
proof -
  consider (q) "c = CHR 0x22" | (b) "c = CHR 0x5C" | (s) "c \<in> {CHR 0x08, CHR 0x09, CHR 0x0A, CHR 0x0C, CHR 0x0D}"
    | (u) "c \<noteq> CHR 0x22" "c \<noteq> CHR 0x5C" "c \<notin> {CHR 0x08, CHR 0x09, CHR 0x0A, CHR 0x0C, CHR 0x0D}"
          "(of_char c :: nat) < 32"
    | (n) "c \<noteq> CHR 0x22" "c \<noteq> CHR 0x5C" "\<not> (of_char c :: nat) < 32"
    by auto
  then show ?thesis
  proof cases
    case q
    then show ?thesis by (simp add: quote_char_def unescape_def)
  next
    case b
    then show ?thesis by (simp add: quote_char_def unescape_def)
  next
    case s
    then show ?thesis by (auto simp: quote_char_def unescape_def)
  next
    case u
    let ?n = "of_char c :: nat"
    have h: "hex_value (hex_digit (?n div 16)) = Some (?n div 16)"
      "hex_value (hex_digit (?n mod 16)) = Some (?n mod 16)"
      using u(4) by (simp_all add: hex_value_hex_digit)
    have v: "16 * (?n div 16) + ?n mod 16 = ?n" by simp
    have q: "quote_char c = [CHR 0x5C, CHR ''u'', CHR ''0'', CHR ''0'',
              hex_digit (?n div 16), hex_digit (?n mod 16)]"
      using u by (simp add: quote_char_def)
    show ?thesis
      using u(4) by (simp add: q h hex_value_zero v del: mult_div_mod_eq div_mult_mod_eq)
  next
    case n
    have "quote_char c = [c]" using n by (auto simp: quote_char_def)
    then show ?thesis using n by simp
  qed
qed

lemma decode_str_body:
  "decode_str cur acc (concat (map quote_char s) @ rest) = decode_str (cur @ s) acc rest"
  by (induction s arbitrary: cur) (simp_all add: decode_str_quote_char)

lemma join_commas_quoted:
  "join_commas (map QuoteJSONString (t # ts)) @ '']'' =
     CHR 0x22 # concat (map quote_char t) @ CHR 0x22 #
       (case ts of [] \<Rightarrow> '']'' | u # us \<Rightarrow> '','' @ join_commas (map QuoteJSONString (u # us)) @ '']'')"
  by (cases ts) (simp_all add: QuoteJSONString_def)

lemma decode_str_elements:
  "decode_str [] acc (tl (join_commas (map QuoteJSONString (t # ts)) @ '']'')) = Some (acc @ t # ts)"
proof (induction ts arbitrary: t acc)
  case Nil
  show ?case by (simp add: QuoteJSONString_def decode_str_body)
next
  case (Cons u us)
  have "decode_str [] acc (tl (join_commas (map QuoteJSONString (t # u # us)) @ '']''))
      = decode_str t acc (CHR 0x22 # CHR '','' # join_commas (map QuoteJSONString (u # us)) @ '']'')"
    by (simp add: join_commas_quoted [of t "u # us"] decode_str_body del: join_commas.simps map_eq_conv list.map)
  also have "\<dots> = decode_str [] (acc @ [t]) (tl (join_commas (map QuoteJSONString (u # us)) @ '']''))"
    by (simp add: join_commas_quoted [of u us] del: join_commas.simps list.map)
  also have "\<dots> = Some ((acc @ [t]) @ u # us)" by (rule Cons.IH)
  finally show ?case by simp
qed

lemma decode_string_array_stringify: "decode_string_array (JSON_stringify ts) = Some ts"
proof (cases ts)
  case Nil
  then show ?thesis by (simp add: JSON_stringify_def decode_string_array_def)
next
  case (Cons t us)
  have "JSON_stringify (t # us) = CHR ''['' # CHR 0x22 # tl (join_commas (map QuoteJSONString (t # us)) @ '']'')"
    by (simp add: JSON_stringify_def join_commas_quoted [of t us] del: join_commas.simps list.map)
  then show ?thesis
    using decode_str_elements [of "[]" t us] Cons by (simp add: decode_string_array_def)
qed

lemma JSON_parse_stringify: "JSON_parse J (JSON_stringify ts) = Some (JArr (map JStr ts))"
  by (simp add: JSON_parse_def decode_string_array_stringify)

subsection \<open>The store\<close>

lemma derive_id_inj:
  "s \<in> set provider_sources \<Longrightarrow> s' \<in> set provider_sources \<Longrightarrow>
   derive_id s e = derive_id s' e' \<Longrightarrow> s = s' \<and> e = e'"
  by (auto simp: derive_id_def provider_sources_def)

lemma id_matches_iff:
  "id_matches d s \<longleftrightarrow> (\<forall>e. d_id d = derive_id s e \<longrightarrow> index_key d = (Some e, s))"
proof
  assume m: "id_matches d s"
  show "\<forall>e. d_id d = derive_id s e \<longrightarrow> index_key d = (Some e, s)"
  proof (intro allI impI)
    fix e assume "d_id d = derive_id s e"
    then have "d_id d = (s @ ''_'') @ e" by (simp add: derive_id_def)
    then show "index_key d = (Some e, s)" using m by (simp add: id_matches_def Let_def)
  qed
next
  assume a: "\<forall>e. d_id d = derive_id s e \<longrightarrow> index_key d = (Some e, s)"
  show "id_matches d s"
  proof (cases "take (length (s @ ''_'')) (d_id d) = s @ ''_''")
    case True
    then have "d_id d = (s @ ''_'') @ drop (length (s @ ''_'')) (d_id d)"
      by (metis append_take_drop_id)
    then have "d_id d = derive_id s (drop (length (s @ ''_'')) (d_id d))"
      by (simp add: derive_id_def)
    with a have "index_key d = (Some (drop (length (s @ ''_'')) (d_id d)), s)" by blast
    then show ?thesis by (simp add: id_matches_def Let_def)
  next
    case False
    then show ?thesis by (simp add: id_matches_def Let_def)
  qed
qed

lemma ids_derived_iff:
  "ids_derived st \<longleftrightarrow>
     (\<forall>d \<in> set st. \<forall>s \<in> set provider_sources. \<forall>e.
        d_id d = derive_id s e \<longrightarrow> index_key d = (Some e, s))"
  by (simp add: ids_derived_def list_all_iff id_matches_iff)

lemma wallpaperExists_iff:
  "wallpaperExists st e s \<longleftrightarrow> (Some e, s) \<in> index_key ` set st"
proof -
  have "wallpaperExists st e s \<longleftrightarrow> filter (\<lambda>d. d_external_id d = Some e \<and> d_source d = s) st \<noteq> []"
    by (simp add: wallpaperExists_def countDocuments_def)
  also have "\<dots> \<longleftrightarrow> (\<exists>d \<in> set st. d_external_id d = Some e \<and> d_source d = s)"
    by (simp add: filter_empty_conv)
  also have "\<dots> \<longleftrightarrow> (Some e, s) \<in> index_key ` set st"
    by (force simp: index_key_def image_iff)
  finally show ?thesis .
qed

lemma index_key_apply_set [simp]: "index_key (apply_set now w d) = wp_key w"
  by (simp add: index_key_def apply_set_def wp_key_def)

lemma d_id_apply_set [simp]: "d_id (apply_set now w d) = d_id d"
  by (simp add: apply_set_def)

lemma index_key_new_document [simp]: "index_key (new_document now w) = wp_key w"
  by (simp add: index_key_def new_document_def wp_key_def)

lemma d_id_new_document [simp]: "d_id (new_document now w) = wp_id w"
  by (simp add: new_document_def)

lemma upsert_doc_skip:
  "\<forall>d \<in> set pre. d_id d \<noteq> wp_id w \<Longrightarrow> upsert_doc now w (pre @ ys) = pre @ upsert_doc now w ys"
  by (induction pre) simp_all

text \<open>Every document after an upsert is an old one or carries the id and key written.\<close>

lemma upsert_doc_members:
  "d \<in> set (upsert_doc now w st) \<Longrightarrow> d \<in> set st \<or> (d_id d = wp_id w \<and> index_key d = wp_key w)"
  by (induction st) (auto split: if_splits)

lemma upsert_doc_has_key: "wp_key w \<in> index_key ` set (upsert_doc now w st)"
  by (induction st) (auto simp: image_iff)

text \<open>A document leaves the collection only when the written id is its own.\<close>

lemma upsert_doc_keeps:
  "d \<in> set st \<Longrightarrow> d_id d \<noteq> wp_id w \<Longrightarrow> d \<in> set (upsert_doc now w st)"
  by (induction st) auto

lemma updateOne_upsert_prefix:
  assumes "\<forall>d \<in> set st. d_id d \<noteq> wp_id w" and "wp_key w \<notin> index_key ` set st"
  shows "updateOne_upsert now w (st @ acc) =
           (case updateOne_upsert now w acc of Inl e \<Rightarrow> Inl e | Inr r \<Rightarrow> Inr (st @ r))"
proof -
  have "(\<exists>d \<in> set (st @ acc). d_id d \<noteq> wp_id w \<and> index_key d = (Some (wp_external_id w), wp_source w))
        \<longleftrightarrow> (\<exists>d \<in> set acc. d_id d \<noteq> wp_id w \<and> index_key d = (Some (wp_external_id w), wp_source w))"
    using assms(2) by (auto simp: wp_key_def image_iff)
  then show ?thesis
    using upsert_doc_skip [OF assms(1)] by (simp add: updateOne_upsert_def)
qed

lemma bulkWrite_prefix:
  assumes "\<forall>w \<in> set ops. (\<forall>d \<in> set st. d_id d \<noteq> wp_id w) \<and> wp_key w \<notin> index_key ` set st"
  shows "bulkWrite_run now ops (st @ acc) = (st @ fst (bulkWrite_run now ops acc), snd (bulkWrite_run now ops acc))"
  using assms
proof (induction ops arbitrary: acc)
  case Nil
  show ?case by simp
next
  case (Cons w ops)
  have a: "\<forall>d \<in> set st. d_id d \<noteq> wp_id w" and b: "wp_key w \<notin> index_key ` set st"
    using Cons.prems by simp_all
  have rest: "\<forall>w \<in> set ops. (\<forall>d \<in> set st. d_id d \<noteq> wp_id w) \<and> wp_key w \<notin> index_key ` set st"
    using Cons.prems by simp
  show ?case
  proof (cases "updateOne_upsert now w acc")
    case (Inl e)
    then show ?thesis using updateOne_upsert_prefix [OF a b, of now acc] by simp
  next
    case (Inr r)
    then show ?thesis
      using updateOne_upsert_prefix [OF a b, of now acc] Cons.IH [OF rest, of r] by simp
  qed
qed

lemma derived_same_key:
  "derived_wp w \<Longrightarrow> derived_wp w' \<Longrightarrow> wp_key w = wp_key w' \<Longrightarrow> wp_id w = wp_id w'"
  by (simp add: derived_wp_def wp_key_def)

lemma derived_same_id:
  assumes "derived_wp w" and "derived_wp w'" and "wp_id w = wp_id w'"
  shows "wp_key w = wp_key w'"
proof -
  have "derive_id (wp_source w) (wp_external_id w) = derive_id (wp_source w') (wp_external_id w')"
    using assms by (simp add: derived_wp_def)
  from derive_id_inj [OF _ _ this] show ?thesis
    using assms(1,2) by (simp add: derived_wp_def wp_key_def)
qed

lemma updateOne_upsert_agrees:
  assumes "agrees K st" and "w \<in> K"
  shows "updateOne_upsert now w st = Inr (upsert_doc now w st)"
  using assms by (auto simp: updateOne_upsert_def agrees_def wp_key_def)

lemma upsert_doc_agrees:
  assumes "agrees K st" and "w \<in> K" and "\<forall>w \<in> K. derived_wp w"
  shows "agrees K (upsert_doc now w st)"
  unfolding agrees_def
proof (intro ballI impI)
  fix d w' assume d: "d \<in> set (upsert_doc now w st)" and w': "w' \<in> K" and k: "index_key d = wp_key w'"
  from upsert_doc_members [OF d] show "d_id d = wp_id w'"
  proof
    assume "d \<in> set st" then show ?thesis using assms(1) w' k by (simp add: agrees_def)
  next
    assume "d_id d = wp_id w \<and> index_key d = wp_key w"
    then show ?thesis using derived_same_key [of w w'] assms(2,3) w' k by simp
  qed
qed

lemma upsert_doc_keys_kept:
  assumes "agrees K st" and "w \<in> K" and "w' \<in> K" and "\<forall>w \<in> K. derived_wp w"
    and "wp_key w' \<in> index_key ` set st"
  shows "wp_key w' \<in> index_key ` set (upsert_doc now w st)"
proof -
  from assms(5) obtain d where d: "d \<in> set st" "index_key d = wp_key w'" by (auto simp: image_iff)
  then have idd: "d_id d = wp_id w'" using assms(1,3) by (simp add: agrees_def)
  show ?thesis
  proof (cases "wp_id w' = wp_id w")
    case True
    then have "wp_key w' = wp_key w" using derived_same_id [of w' w] assms(2,3,4) by simp
    then show ?thesis using upsert_doc_has_key [of w now st] by simp
  next
    case False
    then have "d \<in> set (upsert_doc now w st)" using upsert_doc_keeps [OF d(1)] idd by simp
    then show ?thesis using d(2) by (metis image_eqI)
  qed
qed

lemma bulkWrite_agrees:
  assumes "set ops \<subseteq> K" and "\<forall>w \<in> K. derived_wp w" and "agrees K st"
  shows "snd (bulkWrite_run now ops st) = None
    \<and> agrees K (fst (bulkWrite_run now ops st))
    \<and> (\<forall>w \<in> K. wp_key w \<in> index_key ` set st \<longrightarrow> wp_key w \<in> index_key ` set (fst (bulkWrite_run now ops st)))
    \<and> (\<forall>w \<in> set ops. wp_key w \<in> index_key ` set (fst (bulkWrite_run now ops st)))"
  using assms
proof (induction ops arbitrary: st)
  case Nil
  then show ?case by simp
next
  case (Cons w ops)
  have wK: "w \<in> K" and opsK: "set ops \<subseteq> K" using Cons.prems(1) by simp_all
  let ?st = "upsert_doc now w st"
  have step: "updateOne_upsert now w st = Inr ?st"
    using updateOne_upsert_agrees [OF Cons.prems(3) wK] .
  have ag: "agrees K ?st" using upsert_doc_agrees [OF Cons.prems(3) wK Cons.prems(2)] .
  note ih = Cons.IH [OF opsK Cons.prems(2) ag]
  have kept: "\<forall>w' \<in> K. wp_key w' \<in> index_key ` set st \<longrightarrow> wp_key w' \<in> index_key ` set ?st"
    using upsert_doc_keys_kept [OF Cons.prems(3) wK _ Cons.prems(2)] by blast
  have here: "wp_key w \<in> index_key ` set ?st" by (rule upsert_doc_has_key)
  show ?case using ih kept here wK by (simp add: step)
qed

lemma bulkWrite_members:
  "d \<in> set (fst (bulkWrite_run now ops st)) \<Longrightarrow>
   d \<in> set st \<or> (\<exists>w \<in> set ops. d_id d = wp_id w \<and> index_key d = wp_key w)"
proof (induction ops arbitrary: st)
  case Nil
  then show ?case by simp
next
  case (Cons w ops)
  show ?case
  proof (cases "updateOne_upsert now w st")
    case (Inl e)
    then show ?thesis using Cons.prems by simp
  next
    case (Inr r)
    then have r: "r = upsert_doc now w st"
      by (simp add: updateOne_upsert_def split: if_splits)
    have "d \<in> set (fst (bulkWrite_run now ops (upsert_doc now w st)))"
      using Cons.prems Inr r by simp
    from Cons.IH [OF this] show ?thesis using upsert_doc_members [of _ now w st] by auto
  qed
qed

subsection \<open>Page cursor\<close>

lemma advance_from_init:
  "(runFetchJob_advance ^^ n) currentPage_init =
     \<lparr> cp_unsplash = n mod 5 + 1, cp_pexels = n mod 10 + 1 \<rparr>"
proof (induction n)
  case 0
  show ?case by (simp add: currentPage_init_def)
next
  case (Suc n)
  have "(n mod 5 + 1) mod 5 + 1 = Suc n mod 5 + 1" by presburger
  moreover have "(n mod 10 + 1) mod 10 + 1 = Suc n mod 10 + 1" by presburger
  ultimately show ?case using Suc by (simp add: runFetchJob_advance_def)
qed

text \<open>
  Claim C4. The advance computes \<open>(currentPage mod 10) + 1\<close> for Pexels and
  \<open>(currentPage mod 5) + 1\<close> for Unsplash. From the initial page 1, ten advances bring the
  Pexels page back to 1 and five advances bring the Unsplash page back to 1; after \<open>n\<close>
  advances the pages are \<open>n mod 10 + 1\<close> and \<open>n mod 5 + 1\<close>. Whatever the current page, the
  page an advance produces lies in \<open>1..10\<close> for Pexels and in \<open>1..5\<close> for Unsplash.
\<close>

theorem cursor_advance_cycles:
  "cp_pexels (runFetchJob_advance c) = cp_pexels c mod 10 + 1
   \<and> cp_unsplash (runFetchJob_advance c) = cp_unsplash c mod 5 + 1
   \<and> cp_pexels ((runFetchJob_advance ^^ 10) currentPage_init) = 1
   \<and> cp_unsplash ((runFetchJob_advance ^^ 5) currentPage_init) = 1
   \<and> cp_pexels ((runFetchJob_advance ^^ n) currentPage_init) = n mod 10 + 1
   \<and> cp_unsplash ((runFetchJob_advance ^^ n) currentPage_init) = n mod 5 + 1
   \<and> cp_pexels (runFetchJob_advance c) \<in> {1..10}
   \<and> cp_unsplash (runFetchJob_advance c) \<in> {1..5}"
proof -
  have a: "cp_pexels (runFetchJob_advance c) = cp_pexels c mod 10 + 1"
    and b: "cp_unsplash (runFetchJob_advance c) = cp_unsplash c mod 5 + 1"
    by (simp_all add: runFetchJob_advance_def)
  have c10: "cp_pexels ((runFetchJob_advance ^^ 10) currentPage_init) = 1"
    by (simp only: advance_from_init) simp
  have c5: "cp_unsplash ((runFetchJob_advance ^^ 5) currentPage_init) = 1"
    by (simp only: advance_from_init) simp
  have rp: "cp_pexels ((runFetchJob_advance ^^ n) currentPage_init) = n mod 10 + 1"
    by (simp only: advance_from_init) simp
  have ru: "cp_unsplash ((runFetchJob_advance ^^ n) currentPage_init) = n mod 5 + 1"
    by (simp only: advance_from_init) simp
  have sp: "cp_pexels (runFetchJob_advance c) \<in> {1..10}"
    by (simp add: a Suc_le_eq)
  have su: "cp_unsplash (runFetchJob_advance c) \<in> {1..5}"
    by (simp add: b Suc_le_eq)
  from a b c10 c5 rp ru sp su show ?thesis by blast
qed

theorem cursor_advance_cycles_witness:
  "cp_pexels (runFetchJob_advance \<lparr> cp_unsplash = 5, cp_pexels = 10 \<rparr>) = 1
   \<and> cp_unsplash (runFetchJob_advance \<lparr> cp_unsplash = 5, cp_pexels = 10 \<rparr>) = 1
   \<and> cp_pexels ((runFetchJob_advance ^^ 13) currentPage_init) = 4
   \<and> cp_unsplash ((runFetchJob_advance ^^ 13) currentPage_init) = 4"
  using cursor_advance_cycles [of "\<lparr> cp_unsplash = 5, cp_pexels = 10 \<rparr>" 13] by simp

subsection \<open>Normalizers\<close>

lemma derive_id_unsplash: "derive_id ''unsplash'' e = ''unsplash_'' @ e"
  by (simp add: derive_id_def)

lemma derive_id_pexels: "derive_id ''pexels'' e = ''pexels_'' @ e"
  by (simp add: derive_id_def)

lemma js_or_lit_first: "js_or_lit a lit = first_present [a] lit"
  by (cases a) (simp_all add: js_or_lit_def)

lemma js_or_lit_chain: "js_or_lit (js_or a b) lit = first_present [a, b] lit"
  by (cases a; cases b) (simp_all add: js_or_lit_def js_or_def truthy_def)

text \<open>
  Claim C9. For every Unsplash photo, every Pexels photo and every category, the
  normalizer's id is \<open>{source}_{external_id}\<close>; the Unsplash title is the first present,
  non-empty one of \<open>description\<close> and \<open>alt_description\<close>, else \<open>Untitled\<close>; the Pexels title
  is \<open>alt\<close> when present and non-empty, else \<open>Untitled\<close>; the photographer is the provider's
  name when present and non-empty, else \<open>Unknown\<close>.
\<close>

theorem normalizePhoto_id_title_photographer:
  "wp_id (unsplash_normalizePhoto photo category) =
     derive_id (wp_source (unsplash_normalizePhoto photo category))
               (wp_external_id (unsplash_normalizePhoto photo category))
   \<and> wp_source (unsplash_normalizePhoto photo category) = ''unsplash''
   \<and> wp_external_id (unsplash_normalizePhoto photo category) = up_id photo
   \<and> wp_title (unsplash_normalizePhoto photo category) =
       first_present [up_description photo, up_alt_description photo] ''Untitled''
   \<and> wp_photographer (unsplash_normalizePhoto photo category) =
       first_present [opt_chain (up_user photo) u_name] ''Unknown''
   \<and> wp_id (pexels_normalizePhoto photo' category) =
       derive_id (wp_source (pexels_normalizePhoto photo' category))
                 (wp_external_id (pexels_normalizePhoto photo' category))
   \<and> wp_source (pexels_normalizePhoto photo' category) = ''pexels''
   \<and> wp_external_id (pexels_normalizePhoto photo' category) = String_of_nat (pp_id photo')
   \<and> wp_title (pexels_normalizePhoto photo' category) =
       first_present [pp_alt photo'] ''Untitled''
   \<and> wp_photographer (pexels_normalizePhoto photo' category) =
       first_present [pp_photographer photo'] ''Unknown''"
proof -
  have t: "wp_title (unsplash_normalizePhoto photo category) =
       first_present [up_description photo, up_alt_description photo] ''Untitled''"
    by (simp add: unsplash_normalizePhoto_def js_or_lit_chain)
  have rest: "wp_id (unsplash_normalizePhoto photo category) =
     derive_id (wp_source (unsplash_normalizePhoto photo category))
               (wp_external_id (unsplash_normalizePhoto photo category))
   \<and> wp_source (unsplash_normalizePhoto photo category) = ''unsplash''
   \<and> wp_external_id (unsplash_normalizePhoto photo category) = up_id photo
   \<and> wp_photographer (unsplash_normalizePhoto photo category) =
       first_present [opt_chain (up_user photo) u_name] ''Unknown''"
    by (simp add: unsplash_normalizePhoto_def derive_id_unsplash js_or_lit_first)
  have p: "wp_id (pexels_normalizePhoto photo' category) =
       derive_id (wp_source (pexels_normalizePhoto photo' category))
                 (wp_external_id (pexels_normalizePhoto photo' category))
   \<and> wp_source (pexels_normalizePhoto photo' category) = ''pexels''
   \<and> wp_external_id (pexels_normalizePhoto photo' category) = String_of_nat (pp_id photo')
   \<and> wp_title (pexels_normalizePhoto photo' category) =
       first_present [pp_alt photo'] ''Untitled''
   \<and> wp_photographer (pexels_normalizePhoto photo' category) =
       first_present [pp_photographer photo'] ''Unknown''"
    by (simp add: pexels_normalizePhoto_def derive_id_pexels js_or_lit_first)
  from t rest p show ?thesis by blast
qed

theorem normalizePhoto_id_title_photographer_witness:
  "wp_id (unsplash_normalizePhoto ex_photo (Some ''nature'')) = ''unsplash_42''
   \<and> wp_title (unsplash_normalizePhoto ex_photo (Some ''nature'')) = ''New''
   \<and> wp_photographer (unsplash_normalizePhoto ex_photo (Some ''nature'')) = ''Ann''
   \<and> wp_id (pexels_normalizePhoto ex_pexels_photo (Some ''nature'')) = ''pexels_7''
   \<and> wp_title (pexels_normalizePhoto ex_pexels_photo (Some ''nature'')) = ''Untitled''
   \<and> wp_photographer (pexels_normalizePhoto ex_pexels_photo (Some ''nature'')) = ''Unknown''"
  using normalizePhoto_id_title_photographer
          [of ex_photo "Some ''nature''" ex_pexels_photo]
  by (simp add: ex_photo_def ex_pexels_photo_def derive_id_def opt_chain_def
      String_of_nat.simps digit_char_def)

subsection \<open>Category counts\<close>

lemma Category_updateOne_skip:
  "\<forall>c \<in> set pre. c_id c \<noteq> i \<Longrightarrow>
   Category_updateOne i n (pre @ rest) = pre @ Category_updateOne i n rest"
  by (induction pre) simp_all

lemma updateCategoryCounts_loop_map:
  "distinct (map c_id (pre @ snap)) \<Longrightarrow>
   updateCategoryCounts_loop ws snap (map (count_for ws) pre @ snap) =
     map (count_for ws) (pre @ snap)"
proof (induction snap arbitrary: pre)
  case Nil
  show ?case by simp
next
  case (Cons c rest)
  have ids: "\<forall>x \<in> set (map (count_for ws) pre). c_id x \<noteq> c_id c"
    using Cons.prems by (auto simp: count_for_def image_iff)
  have step: "Category_updateOne (c_id c) (countDocuments (\<lambda>d. d_category d = Some (c_slug c)) ws)
                (map (count_for ws) pre @ c # rest) = map (count_for ws) (pre @ [c]) @ rest"
    using Category_updateOne_skip [OF ids] by (simp add: count_for_def countDocuments_def)
  have d: "distinct (map c_id ((pre @ [c]) @ rest))" using Cons.prems by simp
  show ?case using Cons.IH [OF d] step by (simp add: Let_def)
qed

lemma updateCategoryCounts_map:
  "distinct (map c_id (db_categories db)) \<Longrightarrow>
   updateCategoryCounts db =
     db \<lparr> db_categories := map (count_for (db_wallpapers db)) (db_categories db) \<rparr>"
  using updateCategoryCounts_loop_map [of "[]" "db_categories db" "db_wallpapers db"]
  by (simp add: updateCategoryCounts_def)

text \<open>
  Claim C7. In a store whose categories have distinct \<^verbatim>\<open>_id\<close>s (the primary key of the
  collection), \<open>updateCategoryCounts\<close> leaves the wallpapers and the categories' slugs as
  they are, and afterwards the \<open>wallpaper_count\<close> of every category equals the number of
  wallpaper documents whose \<open>category\<close> is that category's slug.
\<close>

theorem updateCategoryCounts_exact:
  assumes "distinct (map c_id (db_categories db))"
  shows "db_wallpapers (updateCategoryCounts db) = db_wallpapers db
    \<and> map c_slug (db_categories (updateCategoryCounts db)) = map c_slug (db_categories db)
    \<and> (\<forall>c \<in> set (db_categories (updateCategoryCounts db)).
          c_wallpaper_count c =
            length (filter (\<lambda>d. d_category d = Some (c_slug c))
                      (db_wallpapers (updateCategoryCounts db))))"
  by (auto simp: updateCategoryCounts_map [OF assms] count_for_def comp_def)

theorem updateCategoryCounts_exact_witness:
  "distinct (map c_id (db_categories ex_db))
   \<and> map c_slug (db_categories (updateCategoryCounts ex_db)) = [''nature'', ''city'', ''space'']
   \<and> list_all (\<lambda>c. c_wallpaper_count c =
            length (filter (\<lambda>d. d_category d = Some (c_slug c))
                      (db_wallpapers (updateCategoryCounts ex_db))))
         (db_categories (updateCategoryCounts ex_db))"
proof -
  have h: "distinct (map c_id (db_categories ex_db))"
    by (simp add: ex_db_def ex_category_def)
  have s: "map c_slug (db_categories ex_db) = [''nature'', ''city'', ''space'']"
    by (simp add: ex_db_def ex_category_def)
  show ?thesis using h s updateCategoryCounts_exact [OF h] by (simp add: list_all_iff)
qed

subsection \<open>Writing a batch\<close>

lemma prepare_doc_simps [simp]:
  "wp_id (prepare_doc J w) = wp_id w"
  "wp_key (prepare_doc J w) = wp_key w"
  "derived_wp (prepare_doc J w) = derived_wp w"
  "wp_source (prepare_doc J w) = wp_source w"
  "wp_external_id (prepare_doc J w) = wp_external_id w"
  "wp_tags (prepare_doc J w) = fix_tags J (wp_tags w)"
  by (simp_all add: prepare_doc_def wp_key_def derived_wp_def)

lemma cast_doc_Some:
  assumes "cast_doc w = Some d"
  shows "wp_id d = wp_id w" "wp_key d = wp_key w" "derived_wp d = derived_wp w"
    "wp_source d = wp_source w" "wp_external_id d = wp_external_id w"
    "cast_tags (wp_tags w) = Some (wp_tags d)"
  using assms by (auto simp: cast_doc_def wp_key_def derived_wp_def split: option.splits)

lemma cast_all_fwd:
  "cast_all ws = Some ds \<Longrightarrow> w \<in> set ws \<Longrightarrow> \<exists>d \<in> set ds. cast_doc w = Some d"
  by (induction ws arbitrary: ds) (auto split: option.splits)

lemma cast_all_bwd:
  "cast_all ws = Some ds \<Longrightarrow> d \<in> set ds \<Longrightarrow> \<exists>w \<in> set ws. cast_doc w = Some d"
  by (induction ws arbitrary: ds) (auto split: option.splits)

lemma cast_all_total:
  "\<forall>w \<in> set ws. cast_doc w \<noteq> None \<Longrightarrow> \<exists>ds. cast_all ws = Some ds"
  by (induction ws) auto

text \<open>The two ways a call of \<open>insertWallpapers\<close> goes: refused by the cast, or run.\<close>

lemma insertWallpapers_cases:
  obtains (refused) "cast_all (map (prepare_doc J) ws) = None"
      "insertWallpapers J now ws st = (st, Some CastError)"
  | (run) ds where "cast_all (map (prepare_doc J) ws) = Some ds"
      "insertWallpapers J now ws st = bulkWrite_run now ds st"
proof (cases "cast_all (map (prepare_doc J) ws)")
  case None
  then have "ws \<noteq> []" by auto
  then have "insertWallpapers J now ws st = (st, Some CastError)"
    using None by (simp add: insertWallpapers_def bulkWrite_def)
  then show ?thesis using None refused by blast
next
  case (Some ds)
  have "insertWallpapers J now ws st = bulkWrite_run now ds st"
  proof (cases "ws = []")
    case True
    then show ?thesis using Some by (simp add: insertWallpapers_def)
  next
    case False
    then show ?thesis using Some by (simp add: insertWallpapers_def bulkWrite_def)
  qed
  then show ?thesis using Some run by blast
qed

text \<open>What the normalizers emit as tags comes back from the parser and passes the cast.\<close>

lemma fix_tags_stringify: "fix_tags J (JStr (JSON_stringify ts)) = JArr (map JStr ts)"
  by (simp add: fix_tags_def JSON_parse_stringify)

lemma cast_elems_strings: "cast_elems (map JStr ts) = Some (map Some ts)"
  by (induction ts) simp_all

lemma cast_tags_strings: "cast_tags (JArr (map JStr ts)) = Some (TagsArray (map Some ts))"
  by (simp add: cast_tags_def cast_elems_strings)

lemma normalizePhoto_tags:
  "wp_tags (unsplash_normalizePhoto photo category) = JStr (JSON_stringify (photo_titles photo))"
  "wp_tags (pexels_normalizePhoto photo' category) = JStr (JSON_stringify [])"
  by (simp_all add: unsplash_normalizePhoto_def pexels_normalizePhoto_def photo_titles_def)

lemma normalizePhoto_castable:
  "writable J (unsplash_normalizePhoto photo category)"
  "writable J (pexels_normalizePhoto photo' category)"
  using cast_tags_strings [of "photo_titles photo"] cast_tags_strings [of "[]"]
  by (simp_all add: writable_def cast_doc_def normalizePhoto_tags fix_tags_stringify)

lemma normalizePhoto_derived:
  "derived_wp (unsplash_normalizePhoto photo category)"
  "derived_wp (pexels_normalizePhoto photo' category)"
  by (simp_all add: derived_wp_def unsplash_normalizePhoto_def pexels_normalizePhoto_def
      derive_id_def provider_sources_def)

lemma normalizePhoto_source:
  "wp_source (unsplash_normalizePhoto photo category) = ''unsplash''"
  "wp_source (pexels_normalizePhoto photo' category) = ''pexels''"
  by (simp_all add: unsplash_normalizePhoto_def pexels_normalizePhoto_def)

lemma category_batch_derived:
  assumes "category_batch up c p = Some ws" and "w \<in> set ws"
  shows "derived_wp w \<and> writable J w
    \<and> (wp_source w = ''unsplash'' \<or> wp_source w = ''pexels'')"
  using assms
  by (auto simp: category_batch_def unsplash_searchPhotos_def pexels_searchPhotos_def
      normalizePhoto_derived normalizePhoto_source normalizePhoto_castable split: sum.splits)

lemma fetchCategoryWallpapers_unfold:
  "fetchCategoryWallpapers J up now st c p =
     (case category_batch up c p of
        None \<Rightarrow> (Returned 0, st, category_events up c p)
      | Some ws \<Rightarrow>
          if fresh st ws \<noteq> []
          then (case insertWallpapers J now (fresh st ws) st of
                  (st', None) \<Rightarrow> (Returned (length (fresh st ws)), st', category_events up c p)
                | (st', Some e) \<Rightarrow> (Threw e, st', category_events up c p))
          else (Returned 0, st, category_events up c p))"
  by (simp add: fetchCategoryWallpapers_def category_batch_def category_events_def fresh_def
      unsplash_searchPhotos_def pexels_searchPhotos_def Let_def split: sum.splits)

lemma ids_derived_append:
  "ids_derived (xs @ ys) \<longleftrightarrow> ids_derived xs \<and> ids_derived ys"
  by (simp add: ids_derived_def)

lemma bulkWrite_ids_derived:
  assumes "ids_derived st" and "\<forall>w \<in> set ops. derived_wp w"
  shows "ids_derived (fst (bulkWrite_run now ops st))"
  unfolding ids_derived_iff
proof (intro ballI allI impI)
  fix d s e
  assume d: "d \<in> set (fst (bulkWrite_run now ops st))" and s: "s \<in> set provider_sources"
    and i: "d_id d = derive_id s e"
  from bulkWrite_members [OF d] show "index_key d = (Some e, s)"
  proof
    assume "d \<in> set st" then show ?thesis using assms(1) s i by (simp add: ids_derived_iff)
  next
    assume "\<exists>w \<in> set ops. d_id d = wp_id w \<and> index_key d = wp_key w"
    then obtain w where w: "w \<in> set ops" "d_id d = wp_id w" "index_key d = wp_key w" by blast
    then have dw: "derived_wp w" using assms(2) by blast
    then have "derive_id (wp_source w) (wp_external_id w) = derive_id s e"
      using w(2) i by (simp add: derived_wp_def)
    from derive_id_inj [OF _ s this] show ?thesis
      using dw w(3) by (simp add: derived_wp_def wp_key_def)
  qed
qed

lemma fresh_key: "w \<in> set (fresh st ws) \<Longrightarrow> wp_key w \<notin> index_key ` set st"
  by (simp add: fresh_def wallpaperExists_iff wp_key_def)

lemma fresh_subset: "set (fresh st ws) \<subseteq> set ws"
  by (auto simp: fresh_def)

lemma not_fresh_exists:
  "w \<in> set ws \<Longrightarrow> w \<notin> set (fresh st ws) \<Longrightarrow> wp_key w \<in> index_key ` set st"
  by (simp add: fresh_def wallpaperExists_iff wp_key_def)

text \<open>
  Writing a fresh batch of derived objects that pass the cast never fails, and stores
  every key of it.
\<close>

lemma insertWallpapers_fresh:
  assumes "\<forall>w \<in> set ws. derived_wp w \<and> writable J w"
  shows "snd (insertWallpapers J now (fresh st ws) st) = None
    \<and> (\<forall>w \<in> set (fresh st ws).
          wp_key w \<in> index_key ` set (fst (insertWallpapers J now (fresh st ws) st)))"
proof -
  have "\<forall>w \<in> set (fresh st ws). writable J w"
    using assms fresh_subset by blast
  then have "\<forall>w \<in> set (map (prepare_doc J) (fresh st ws)). cast_doc w \<noteq> None"
    unfolding writable_def by simp
  from cast_all_total [OF this] obtain ds
    where ds: "cast_all (map (prepare_doc J) (fresh st ws)) = Some ds" by blast
  have iw: "insertWallpapers J now (fresh st ws) st = bulkWrite_run now ds st"
    by (rule insertWallpapers_cases [of J "fresh st ws" now st]) (simp_all add: ds)
  have orig: "\<exists>v \<in> set (fresh st ws). wp_id d = wp_id v \<and> wp_key d = wp_key v \<and> derived_wp d"
    if "d \<in> set ds" for d
  proof -
    from cast_all_bwd [OF ds that] obtain w where w: "w \<in> set (map (prepare_doc J) (fresh st ws))"
      "cast_doc w = Some d" by blast
    then obtain v where v: "v \<in> set (fresh st ws)" "w = prepare_doc J v" by auto
    have "derived_wp v" using assms v(1) fresh_subset by blast
    then show ?thesis using cast_doc_Some [OF w(2)] v by auto
  qed
  have der: "\<forall>d \<in> set ds. derived_wp d" using orig by blast
  have ag: "agrees (set ds) st"
    unfolding agrees_def
  proof (intro ballI impI)
    fix x d assume x: "x \<in> set st" and d: "d \<in> set ds" and k: "index_key x = wp_key d"
    from orig [OF d] obtain v where v: "v \<in> set (fresh st ws)" "wp_key d = wp_key v" by blast
    have "wp_key d \<notin> index_key ` set st" using fresh_key [OF v(1)] v(2) by simp
    then have False using x k by (metis image_eqI)
    then show "d_id x = wp_id d" ..
  qed
  from bulkWrite_agrees [OF subset_refl der ag, of now]
  have ok: "snd (bulkWrite_run now ds st) = None"
    and keys: "\<forall>d \<in> set ds. wp_key d \<in> index_key ` set (fst (bulkWrite_run now ds st))"
    by blast+
  have "\<forall>v \<in> set (fresh st ws). wp_key v \<in> index_key ` set (fst (bulkWrite_run now ds st))"
  proof
    fix v assume "v \<in> set (fresh st ws)"
    then have "prepare_doc J v \<in> set (map (prepare_doc J) (fresh st ws))" by simp
    from cast_all_fwd [OF ds this] obtain d where d: "d \<in> set ds" "cast_doc (prepare_doc J v) = Some d"
      by blast
    have "wp_key d = wp_key v" using cast_doc_Some(2) [OF d(2)] by simp
    moreover have "wp_key d \<in> index_key ` set (fst (bulkWrite_run now ds st))"
      using keys d(1) by blast
    ultimately show "wp_key v \<in> index_key ` set (fst (bulkWrite_run now ds st))" by simp
  qed
  then show ?thesis using ok by (simp add: iw)
qed

text \<open>Every document after a call is an old one or carries the id and key of a written object.\<close>

lemma insertWallpapers_members:
  assumes "d \<in> set (fst (insertWallpapers J now ws st))"
  shows "d \<in> set st \<or> (\<exists>w \<in> set ws. d_id d = wp_id w \<and> index_key d = wp_key w)"
proof (rule insertWallpapers_cases [of J ws now st])
  assume "insertWallpapers J now ws st = (st, Some CastError)"
  then show ?thesis using assms by simp
next
  fix ds assume ds: "cast_all (map (prepare_doc J) ws) = Some ds"
    and iw: "insertWallpapers J now ws st = bulkWrite_run now ds st"
  from assms iw have "d \<in> set (fst (bulkWrite_run now ds st))" by simp
  from bulkWrite_members [OF this] show ?thesis
  proof
    assume "d \<in> set st" then show ?thesis ..
  next
    assume "\<exists>x \<in> set ds. d_id d = wp_id x \<and> index_key d = wp_key x"
    then obtain x where x: "x \<in> set ds" "d_id d = wp_id x" "index_key d = wp_key x" by blast
    from cast_all_bwd [OF ds x(1)] obtain w where w: "w \<in> set (map (prepare_doc J) ws)"
      "cast_doc w = Some x" by blast
    then obtain v where v: "v \<in> set ws" "w = prepare_doc J v" by auto
    have "d_id d = wp_id v \<and> index_key d = wp_key v"
      using cast_doc_Some(1,2) [OF w(2)] x(2,3) v(2) by simp
    then show ?thesis using v(1) by blast
  qed
qed

text \<open>
  On a collection that meets the data-model condition, a fresh batch only appends: the
  stored documents stay as they are, in place.
\<close>

lemma insertWallpapers_appends:
  assumes "ids_derived st" and "\<forall>w \<in> set ws. derived_wp w"
  shows "\<exists>added. fst (insertWallpapers J now (fresh st ws) st) = st @ added
    \<and> ids_derived (st @ added)
    \<and> (\<forall>a \<in> set added. \<exists>w \<in> set (fresh st ws). d_id a = wp_id w \<and> index_key a = wp_key w)"
proof (rule insertWallpapers_cases [of J "fresh st ws" now st])
  assume "insertWallpapers J now (fresh st ws) st = (st, Some CastError)"
  then have "fst (insertWallpapers J now (fresh st ws) st) = st @ []" by simp
  then show ?thesis using assms(1) by fastforce
next
  fix ds assume ds: "cast_all (map (prepare_doc J) (fresh st ws)) = Some ds"
    and iw: "insertWallpapers J now (fresh st ws) st = bulkWrite_run now ds st"
  have orig: "\<exists>v \<in> set (fresh st ws). wp_id d = wp_id v \<and> wp_key d = wp_key v \<and> derived_wp d"
    if "d \<in> set ds" for d
  proof -
    from cast_all_bwd [OF ds that] obtain w where w: "w \<in> set (map (prepare_doc J) (fresh st ws))"
      "cast_doc w = Some d" by blast
    then obtain v where v: "v \<in> set (fresh st ws)" "w = prepare_doc J v" by auto
    have "derived_wp v" using assms(2) v(1) fresh_subset by blast
    then show ?thesis using cast_doc_Some [OF w(2)] v by auto
  qed
  have der: "\<forall>d \<in> set ds. derived_wp d" using orig by blast
  have noid: "\<forall>w \<in> set ds. (\<forall>d \<in> set st. d_id d \<noteq> wp_id w) \<and> wp_key w \<notin> index_key ` set st"
  proof
    fix w assume wds: "w \<in> set ds"
    from orig [OF wds] obtain v where v: "v \<in> set (fresh st ws)" "wp_key w = wp_key v" by blast
    have k: "wp_key w \<notin> index_key ` set st" using fresh_key [OF v(1)] v(2) by simp
    have dw: "derived_wp w" using der wds by blast
    have "\<forall>d \<in> set st. d_id d \<noteq> wp_id w"
    proof
      fix d assume d: "d \<in> set st"
      show "d_id d \<noteq> wp_id w"
      proof
        assume "d_id d = wp_id w"
        then have "d_id d = derive_id (wp_source w) (wp_external_id w)"
          using dw by (simp add: derived_wp_def)
        then have "index_key d = wp_key w"
          using assms(1) d dw by (simp add: ids_derived_iff wp_key_def derived_wp_def)
        then show False using k d by (metis image_eqI)
      qed
    qed
    then show "(\<forall>d \<in> set st. d_id d \<noteq> wp_id w) \<and> wp_key w \<notin> index_key ` set st" using k by blast
  qed
  let ?added = "fst (bulkWrite_run now ds [])"
  have eq: "bulkWrite_run now ds st = (st @ ?added, snd (bulkWrite_run now ds []))"
    using bulkWrite_prefix [OF noid, of now "[]"] by simp
  have mem: "\<forall>a \<in> set ?added. \<exists>w \<in> set (fresh st ws). d_id a = wp_id w \<and> index_key a = wp_key w"
  proof
    fix a assume "a \<in> set ?added"
    from bulkWrite_members [OF this]
    have "\<exists>w \<in> set ds. d_id a = wp_id w \<and> index_key a = wp_key w" by simp
    then obtain w where w: "w \<in> set ds" "d_id a = wp_id w" "index_key a = wp_key w" by blast
    from orig [OF w(1)] obtain v where "v \<in> set (fresh st ws)" "wp_id w = wp_id v" "wp_key w = wp_key v"
      by blast
    then show "\<exists>w \<in> set (fresh st ws). d_id a = wp_id w \<and> index_key a = wp_key w"
      using w(2,3) by auto
  qed
  have "ids_derived (fst (bulkWrite_run now ds st))" using bulkWrite_ids_derived [OF assms(1) der] .
  then have idd: "ids_derived (st @ ?added)" using eq by simp
  have "fst (insertWallpapers J now (fresh st ws) st) = st @ ?added"
    using eq iw by simp
  then show ?thesis using idd mem by blast
qed

subsection \<open>The ingestion job\<close>

lemma wallpaperExists_key: "wallpaperExists st (wp_external_id w) (wp_source w) \<longleftrightarrow> wp_key w \<in> index_key ` set st"
  by (simp add: wallpaperExists_iff wp_key_def)

text \<open>
  One category on a collection that meets the data-model condition: the call returns, the
  stored documents stay in place, the condition is kept, the appended documents carry
  keys that were not stored, and every delivered wallpaper is stored afterwards.
\<close>

lemma fetchCategoryWallpapers_appends:
  assumes "ids_derived st"
  shows "\<exists>n added.
      fetchCategoryWallpapers J up now st c p = (Returned n, st @ added, category_events up c p)
    \<and> ids_derived (st @ added)
    \<and> (\<forall>a \<in> set added. index_key a \<notin> index_key ` set st
          \<and> (d_source a = ''unsplash'' \<or> d_source a = ''pexels''))
    \<and> (\<forall>ws. category_batch up c p = Some ws \<longrightarrow>
          (\<forall>w \<in> set ws. wp_key w \<in> index_key ` set (st @ added)))"
proof (cases "category_batch up c p")
  case None
  have "fetchCategoryWallpapers J up now st c p = (Returned 0, st @ [], category_events up c p)"
    by (simp add: fetchCategoryWallpapers_unfold None)
  then show ?thesis using assms None by fastforce
next
  case (Some ws)
  have der: "\<forall>w \<in> set ws. derived_wp w" using category_batch_derived [OF Some] by blast
  have wr: "\<forall>w \<in> set ws. derived_wp w \<and> writable J w"
    using category_batch_derived [OF Some] by blast
  have src: "\<forall>w \<in> set ws. wp_source w = ''unsplash'' \<or> wp_source w = ''pexels''"
    using category_batch_derived [OF Some] by blast
  show ?thesis
  proof (cases "fresh st ws = []")
    case True
    have r: "fetchCategoryWallpapers J up now st c p = (Returned 0, st @ [], category_events up c p)"
      by (simp add: fetchCategoryWallpapers_unfold Some True)
    have "\<forall>w \<in> set ws. wp_key w \<in> index_key ` set st"
      using not_fresh_exists [of _ ws st] True by simp
    then show ?thesis using r assms Some by fastforce
  next
    case False
    from insertWallpapers_appends [OF assms der, of J now]
    obtain added where a: "fst (insertWallpapers J now (fresh st ws) st) = st @ added"
      "ids_derived (st @ added)"
      "\<forall>a \<in> set added. \<exists>w \<in> set (fresh st ws). d_id a = wp_id w \<and> index_key a = wp_key w"
      by blast
    from insertWallpapers_fresh [OF wr, of now st]
    have ok: "snd (insertWallpapers J now (fresh st ws) st) = None"
      and stored: "\<forall>w \<in> set (fresh st ws). wp_key w \<in> index_key ` set (st @ added)"
      using a(1) by simp_all
    have iw: "insertWallpapers J now (fresh st ws) st = (st @ added, None)"
      using a(1) ok by (metis prod.collapse)
    have r: "fetchCategoryWallpapers J up now st c p =
        (Returned (length (fresh st ws)), st @ added, category_events up c p)"
      by (simp add: fetchCategoryWallpapers_unfold Some False iw)
    have newkeys: "\<forall>a \<in> set added. index_key a \<notin> index_key ` set st
          \<and> (d_source a = ''unsplash'' \<or> d_source a = ''pexels'')"
    proof
      fix x assume "x \<in> set added"
      with a(3) obtain w where w: "w \<in> set (fresh st ws)" "index_key x = wp_key w" by blast
      have "w \<in> set ws" using w(1) fresh_subset by blast
      then have "wp_source w = ''unsplash'' \<or> wp_source w = ''pexels''" using src by blast
      moreover have "d_source x = wp_source w" using w(2) by (simp add: index_key_def wp_key_def)
      ultimately show "index_key x \<notin> index_key ` set st \<and> (d_source x = ''unsplash'' \<or> d_source x = ''pexels'')"
        using fresh_key [OF w(1)] w(2) by simp
    qed
    have all: "\<forall>w \<in> set ws. wp_key w \<in> index_key ` set (st @ added)"
    proof
      fix w assume w: "w \<in> set ws"
      show "wp_key w \<in> index_key ` set (st @ added)"
      proof (cases "w \<in> set (fresh st ws)")
        case True then show ?thesis using stored by blast
      next
        case False then show ?thesis using not_fresh_exists [OF w] by auto
      qed
    qed
    show ?thesis using r a(2) newkeys all Some by fastforce
  qed
qed

text \<open>The loop over the categories, under the same condition.\<close>

lemma fetchAll_loop_appends:
  assumes "ids_derived st"
  shows "\<exists>tot' added tr'.
      fetchAll_loop J up now cats st tot tr = (tot', st @ added, tr')
    \<and> ids_derived (st @ added)
    \<and> (\<forall>a \<in> set added. d_source a = ''unsplash'' \<or> d_source a = ''pexels'')
    \<and> (\<forall>c \<in> set cats. \<forall>ws. category_batch up c 20 = Some ws \<longrightarrow>
          (\<forall>w \<in> set ws. wp_key w \<in> index_key ` set (st @ added)))"
  using assms
proof (induction cats arbitrary: st tot tr)
  case Nil
  have "fetchAll_loop J up now [] st tot tr = (tot, st @ [], tr)" by simp
  then show ?case using Nil by fastforce
next
  case (Cons c cats)
  from fetchCategoryWallpapers_appends [OF Cons.prems, of J up now c 20]
  obtain n added where s: "fetchCategoryWallpapers J up now st c 20 = (Returned n, st @ added, category_events up c 20)"
    "ids_derived (st @ added)"
    "\<forall>a \<in> set added. index_key a \<notin> index_key ` set st \<and> (d_source a = ''unsplash'' \<or> d_source a = ''pexels'')"
    "\<forall>ws. category_batch up c 20 = Some ws \<longrightarrow> (\<forall>w \<in> set ws. wp_key w \<in> index_key ` set (st @ added))"
    by blast
  from Cons.IH [OF s(2), of "tot + n" "tr @ category_events up c 20"]
  obtain tot' added' tr' where r:
    "fetchAll_loop J up now cats (st @ added) (tot + n) (tr @ category_events up c 20) = (tot', (st @ added) @ added', tr')"
    "ids_derived ((st @ added) @ added')"
    "\<forall>a \<in> set added'. d_source a = ''unsplash'' \<or> d_source a = ''pexels''"
    "\<forall>c \<in> set cats. \<forall>ws. category_batch up c 20 = Some ws \<longrightarrow>
          (\<forall>w \<in> set ws. wp_key w \<in> index_key ` set ((st @ added) @ added'))"
    by blast
  have run: "fetchAll_loop J up now (c # cats) st tot tr = (tot', st @ (added @ added'), tr')"
    using s(1) r(1) by simp
  have src: "\<forall>a \<in> set (added @ added'). d_source a = ''unsplash'' \<or> d_source a = ''pexels''"
    using s(3) r(3) by auto
  have cov: "\<forall>c' \<in> set (c # cats). \<forall>ws. category_batch up c' 20 = Some ws \<longrightarrow>
          (\<forall>w \<in> set ws. wp_key w \<in> index_key ` set (st @ (added @ added')))"
  proof (intro ballI allI impI)
    fix c' ws w
    assume c': "c' \<in> set (c # cats)" and b: "category_batch up c' 20 = Some ws" and w: "w \<in> set ws"
    show "wp_key w \<in> index_key ` set (st @ (added @ added'))"
    proof (cases "c' = c")
      case True
      then have "wp_key w \<in> index_key ` set (st @ added)" using s(4) b w by blast
      then show ?thesis by auto
    next
      case False
      then have "c' \<in> set cats" using c' by simp
      then have "wp_key w \<in> index_key ` set ((st @ added) @ added')" using r(4) b w by blast
      then show ?thesis by simp
    qed
  qed
  show ?case using run r(2) src cov by (metis append_assoc)
qed

text \<open>When every delivered wallpaper is already stored, the loop writes nothing.\<close>

lemma fetchAll_loop_noop:
  assumes "\<forall>c \<in> set cats. \<forall>ws. category_batch up c 20 = Some ws \<longrightarrow>
             (\<forall>w \<in> set ws. wp_key w \<in> index_key ` set st)"
  shows "\<exists>tr'. fetchAll_loop J up now cats st tot tr = (tot, st, tr')"
  using assms
proof (induction cats arbitrary: tr)
  case Nil
  show ?case by simp
next
  case (Cons c cats)
  have "fresh st ws = []" if "category_batch up c 20 = Some ws" for ws
    using Cons.prems that by (simp add: fresh_def wallpaperExists_key filter_empty_conv)
  then have "fetchCategoryWallpapers J up now st c 20 = (Returned 0, st, category_events up c 20)"
    by (simp add: fetchCategoryWallpapers_unfold split: option.splits)
  moreover have "\<forall>c \<in> set cats. \<forall>ws. category_batch up c 20 = Some ws \<longrightarrow>
             (\<forall>w \<in> set ws. wp_key w \<in> index_key ` set st)" using Cons.prems by simp
  ultimately show ?case using Cons.IH [of "tr @ category_events up c 20"] by simp
qed

text \<open>Recomputed counters change neither what a category delivers nor the order of the categories.\<close>

lemma category_batch_count_for:
  "category_batch up (count_for W c) p = category_batch up c p"
  by (simp add: category_batch_def count_for_def cong: sum.case_cong)

lemma category_events_count_for:
  "category_events up (count_for W c) p = category_events up c p"
  by (simp add: category_events_def count_for_def cong: sum.case_cong)

lemma fetchCategoryWallpapers_count_for:
  "fetchCategoryWallpapers J up now st (count_for W c) p = fetchCategoryWallpapers J up now st c p"
  by (simp only: fetchCategoryWallpapers_unfold category_batch_count_for category_events_count_for)

lemma c_name_count_for [simp]: "c_name (count_for W c) = c_name c"
  by (simp add: count_for_def)

lemma fetchAll_loop_count_for:
  "fetchAll_loop J up now (map (count_for W) cats) st tot tr = fetchAll_loop J up now cats st tot tr"
  by (induction cats arbitrary: st tot tr)
     (simp_all add: fetchCategoryWallpapers_count_for c_name_count_for
        split: prod.splits outcome.splits)

lemma insort_key_count_for:
  "insort_key c_name (count_for W c) (map (count_for W) cs) = map (count_for W) (insort_key c_name c cs)"
  by (induction cs) (simp_all add: count_for_def)

lemma sort_key_count_for:
  "sort_key c_name (map (count_for W) cs) = map (count_for W) (sort_key c_name cs)"
  by (induction cs) (simp_all add: insort_key_count_for)

lemma count_for_idem: "count_for W (count_for W c) = count_for W c"
  by (simp add: count_for_def)

lemma c_id_count_for: "map c_id (map (count_for W) cs) = map c_id cs"
  by (simp add: count_for_def)

text \<open>The job in terms of its loop, for a store whose categories have distinct ids.\<close>

lemma fetchAllCategoryWallpapers_unfold:
  assumes "distinct (map c_id (db_categories db))"
    and "fetchAll_loop J up now (getCategories db) (db_wallpapers db) 0 [] = (n, W, tr)"
  shows "fetchAllCategoryWallpapers J up now db =
           (n, \<lparr> db_wallpapers = W, db_categories = map (count_for W) (db_categories db) \<rparr>, tr)"
proof -
  have d: "distinct (map c_id (db_categories (db \<lparr> db_wallpapers := W \<rparr>)))" using assms(1) by simp
  show ?thesis
    using updateCategoryCounts_map [OF d] assms(2)
    by (simp add: fetchAllCategoryWallpapers_def)
qed

text \<open>
  Claim C3 as stated fails on a catalog whose ids do not follow the id format. The catalog
  holds the Pexels record 8 under the id \<^verbatim>\<open>pexels_7\<close>; Unsplash is down and Pexels
  delivers the photos 7 and 8. The first run finds the pair of photo 7 missing and writes
  it under \<^verbatim>\<open>pexels_7\<close>, over the stored record: it returns 1 and the catalog has one
  record. The second run, against the same answers, finds the pair of photo 8 missing and
  inserts \<^verbatim>\<open>pexels_8\<close>: it returns 1 and the catalog has two records.
\<close>

theorem fetchAll_twice_counterexample:
  "distinct (map c_id (db_categories ex_misfiled_db))
   \<and> \<not> ids_derived (db_wallpapers ex_misfiled_db)
   \<and> fst (fetchAllCategoryWallpapers ex_codec ex_upstream_two 5 ex_misfiled_db) = 1
   \<and> map d_id (db_wallpapers (fst (snd (fetchAllCategoryWallpapers ex_codec ex_upstream_two 5
          ex_misfiled_db)))) = [''pexels_7'']
   \<and> fst (fetchAllCategoryWallpapers ex_codec ex_upstream_two 5
          (fst (snd (fetchAllCategoryWallpapers ex_codec ex_upstream_two 5 ex_misfiled_db)))) = 1
   \<and> map d_id (db_wallpapers (fst (snd (fetchAllCategoryWallpapers ex_codec ex_upstream_two 5
          (fst (snd (fetchAllCategoryWallpapers ex_codec ex_upstream_two 5 ex_misfiled_db)))))))
        = [''pexels_7'', ''pexels_8'']
   \<and> fst (snd (fetchAllCategoryWallpapers ex_codec ex_upstream_two 5
          (fst (snd (fetchAllCategoryWallpapers ex_codec ex_upstream_two 5 ex_misfiled_db)))))
        \<noteq> fst (snd (fetchAllCategoryWallpapers ex_codec ex_upstream_two 5 ex_misfiled_db))"
  by code_simp

text \<open>
  Claim C3, amended. On a store that meets the data-model condition on ids (a stored
  \<^verbatim>\<open>_id\<close> of the form \<^verbatim>\<open>unsplash_{x}\<close> or \<^verbatim>\<open>pexels_{x}\<close> belongs to the record of that source
  whose external id is \<open>x\<close>) and whose categories have distinct \<^verbatim>\<open>_id\<close>s, running
  \<open>fetchAllCategoryWallpapers\<close> a second time against the same upstream answers (at any
  later time) leaves the database exactly as the first run left it, wallpapers and
  category counts alike, and the second run reports zero new records. The store the first
  run leaves meets the two conditions again.
\<close>

theorem fetchAll_twice_same_catalog:
  assumes "ids_derived (db_wallpapers db)" and "distinct (map c_id (db_categories db))"
  shows "fst (snd (fetchAllCategoryWallpapers J up now'
                     (fst (snd (fetchAllCategoryWallpapers J up now db)))))
           = fst (snd (fetchAllCategoryWallpapers J up now db))
    \<and> fst (fetchAllCategoryWallpapers J up now'
              (fst (snd (fetchAllCategoryWallpapers J up now db)))) = 0
    \<and> ids_derived (db_wallpapers (fst (snd (fetchAllCategoryWallpapers J up now db))))
    \<and> distinct (map c_id (db_categories (fst (snd (fetchAllCategoryWallpapers J up now db)))))"
proof -
  let ?C = "db_categories db"
  from fetchAll_loop_appends [OF assms(1), of J up now "getCategories db" 0 "[]"]
  obtain n added tr where run1:
    "fetchAll_loop J up now (getCategories db) (db_wallpapers db) 0 [] = (n, db_wallpapers db @ added, tr)"
    and inv: "ids_derived (db_wallpapers db @ added)"
    and cov: "\<forall>c \<in> set (getCategories db). \<forall>ws. category_batch up c 20 = Some ws \<longrightarrow>
          (\<forall>w \<in> set ws. wp_key w \<in> index_key ` set (db_wallpapers db @ added))"
    by blast
  let ?W = "db_wallpapers db @ added"
  let ?db1 = "\<lparr> db_wallpapers = ?W, db_categories = map (count_for ?W) ?C \<rparr>"
  have first: "fetchAllCategoryWallpapers J up now db = (n, ?db1, tr)"
    using fetchAllCategoryWallpapers_unfold [OF assms(2) run1] .
  have cats1: "getCategories ?db1 = map (count_for ?W) (getCategories db)"
    by (simp add: getCategories_def sort_key_count_for)
  from fetchAll_loop_noop [OF cov, of J now' 0 "[]"]
  obtain tr' where noop: "fetchAll_loop J up now' (getCategories db) ?W 0 [] = (0, ?W, tr')"
    by blast
  have run2: "fetchAll_loop J up now' (getCategories ?db1) (db_wallpapers ?db1) 0 [] = (0, ?W, tr')"
    using noop by (simp add: cats1 fetchAll_loop_count_for)
  have d1: "distinct (map c_id (db_categories ?db1))"
    using assms(2) c_id_count_for [of ?W ?C] by (simp del: map_map)
  have second: "fetchAllCategoryWallpapers J up now' ?db1 = (0, ?db1, tr')"
    using fetchAllCategoryWallpapers_unfold [OF d1 run2] by (simp add: count_for_idem)
  show ?thesis using inv d1 by (simp add: first second)
qed

theorem fetchAll_twice_same_catalog_witness:
  "ids_derived (db_wallpapers ex_db) \<and> distinct (map c_id (db_categories ex_db))
   \<and> fst (fetchAllCategoryWallpapers ex_codec ex_upstream_fallback 5 ex_db) = 1
   \<and> fst (snd (fetchAllCategoryWallpapers ex_codec ex_upstream_fallback 9
                 (fst (snd (fetchAllCategoryWallpapers ex_codec ex_upstream_fallback 5 ex_db)))))
        = fst (snd (fetchAllCategoryWallpapers ex_codec ex_upstream_fallback 5 ex_db))
   \<and> fst (fetchAllCategoryWallpapers ex_codec ex_upstream_fallback 9
              (fst (snd (fetchAllCategoryWallpapers ex_codec ex_upstream_fallback 5 ex_db)))) = 0"
proof -
  have h1: "ids_derived (db_wallpapers ex_db)"
    by code_simp
  have h2: "distinct (map c_id (db_categories ex_db))"
    by (simp add: ex_db_def ex_category_def)
  have n: "fst (fetchAllCategoryWallpapers ex_codec ex_upstream_fallback 5 ex_db) = 1"
    by code_simp
  from fetchAll_twice_same_catalog [OF h1 h2, of ex_codec ex_upstream_fallback 9 5] h1 h2 n
  show ?thesis by blast
qed

subsection \<open>Refresh of a stored record\<close>

text \<open>
  Claim C2 as stated fails. The catalog holds the Unsplash record 42 with title \<open>Old\<close>;
  Unsplash delivers photo 42 with title \<open>New\<close> and new URLs. The pair exists, so
  \<open>fetchCategoryWallpapers\<close> filters the record out before writing: the call returns 0 and
  the stored title and URLs are the old ones, after the call and after the whole job.
\<close>

theorem ingestion_refresh_counterexample:
  "category_batch ex_upstream (ex_category 1 ''nature'' ''Nature'') 20
     = Some [unsplash_normalizePhoto ex_photo (Some ''nature'')]
   \<and> wallpaperExists [ex_doc] ''42'' ''unsplash''
   \<and> wp_external_id (unsplash_normalizePhoto ex_photo (Some ''nature'')) = ''42''
   \<and> wp_source (unsplash_normalizePhoto ex_photo (Some ''nature'')) = ''unsplash''
   \<and> wp_title (unsplash_normalizePhoto ex_photo (Some ''nature'')) = ''New''
   \<and> wp_url_regular (unsplash_normalizePhoto ex_photo (Some ''nature'')) = Val ''r1''
   \<and> fetchCategoryWallpapers ex_codec ex_upstream 5 [ex_doc] (ex_category 1 ''nature'' ''Nature'') 20
       = (Returned 0, [ex_doc], [Request Unsplash (Some ''nature'') 1 20])
   \<and> d_title ex_doc = Some ''Old'' \<and> d_url_regular ex_doc = Some ''r0''
   \<and> db_wallpapers (fst (snd (fetchAllCategoryWallpapers ex_codec ex_upstream 5 ex_db))) = [ex_doc]"
  by code_simp

text \<open>
  Claim C2 as amended. On a collection that meets the data-model condition on ids, when a
  category delivers a wallpaper whose \<open>(external_id, source)\<close> pair is already stored,
  \<open>fetchCategoryWallpapers\<close> leaves the stored documents of that pair exactly as they were
  (title, URLs and \<open>downloads\<close> included), and every stored document stays in place.
\<close>

theorem ingestion_leaves_stored_record:
  assumes "ids_derived st"
    and "category_batch up c p = Some ws" and "w \<in> set ws"
    and "wallpaperExists st (wp_external_id w) (wp_source w)"
  shows "filter (\<lambda>d. index_key d = wp_key w) (fst (snd (fetchCategoryWallpapers J up now st c p)))
           = filter (\<lambda>d. index_key d = wp_key w) st
    \<and> take (length st) (fst (snd (fetchCategoryWallpapers J up now st c p))) = st"
proof -
  from fetchCategoryWallpapers_appends [OF assms(1), of J up now c p]
  obtain n added where r:
    "fetchCategoryWallpapers J up now st c p = (Returned n, st @ added, category_events up c p)"
    "\<forall>a \<in> set added. index_key a \<notin> index_key ` set st \<and> (d_source a = ''unsplash'' \<or> d_source a = ''pexels'')"
    by blast
  have k: "wp_key w \<in> index_key ` set st" using assms(4) by (simp add: wallpaperExists_key)
  have "filter (\<lambda>d. index_key d = wp_key w) added = []"
    using r(2) k by (auto simp: filter_empty_conv)
  then show ?thesis by (simp add: r(1))
qed

theorem ingestion_leaves_stored_record_witness:
  "ids_derived [ex_doc]
   \<and> category_batch ex_upstream (ex_category 1 ''nature'' ''Nature'') 20
       = Some [unsplash_normalizePhoto ex_photo (Some ''nature'')]
   \<and> wallpaperExists [ex_doc] (wp_external_id (unsplash_normalizePhoto ex_photo (Some ''nature'')))
        (wp_source (unsplash_normalizePhoto ex_photo (Some ''nature'')))
   \<and> filter (\<lambda>d. index_key d = wp_key (unsplash_normalizePhoto ex_photo (Some ''nature'')))
        (fst (snd (fetchCategoryWallpapers ex_codec ex_upstream 5 [ex_doc]
                     (ex_category 1 ''nature'' ''Nature'') 20)))
       = [ex_doc]"
proof -
  have h1: "ids_derived [ex_doc]"
    by code_simp
  have h2: "category_batch ex_upstream (ex_category 1 ''nature'' ''Nature'') 20
       = Some [unsplash_normalizePhoto ex_photo (Some ''nature'')]"
    by code_simp
  have h3: "unsplash_normalizePhoto ex_photo (Some ''nature'')
       \<in> set [unsplash_normalizePhoto ex_photo (Some ''nature'')]" by simp
  have h4: "wallpaperExists [ex_doc] (wp_external_id (unsplash_normalizePhoto ex_photo (Some ''nature'')))
        (wp_source (unsplash_normalizePhoto ex_photo (Some ''nature'')))"
    by code_simp
  have e: "filter (\<lambda>d. index_key d = wp_key (unsplash_normalizePhoto ex_photo (Some ''nature''))) [ex_doc]
       = [ex_doc]"
    by code_simp
  from ingestion_leaves_stored_record [OF h1 h2 h3 h4, of ex_codec 5] h1 h2 h4 e show ?thesis by simp
qed


subsection \<open>The source field\<close>

lemma db_wallpapers_updateCategoryCounts [simp]:
  "db_wallpapers (updateCategoryCounts db) = db_wallpapers db"
  by (simp add: updateCategoryCounts_def)

lemma provider_sources_in_enum:
  "''unsplash'' \<in> set wallpaperSchema_source_enum" "''pexels'' \<in> set wallpaperSchema_source_enum"
  by (simp_all add: wallpaperSchema_source_enum_def)

text \<open>
  Claim C8 as stated fails, three times over. The schema's enumeration holds \<open>gemini\<close>, not
  \<open>generated\<close>. The write path does not check it: \<open>updateOne\<close> and \<open>bulkWrite\<close> run without
  validators, so a write through \<open>insertWallpapers\<close> stores the source \<open>bing\<close> as given.
  And nothing makes \<open>source\<close> immutable: a write through \<open>insertWallpaper\<close> or
  \<open>insertWallpapers\<close> that carries the stored id sets the source of the stored record, here
  from \<open>unsplash\<close> to \<open>pexels\<close>.
\<close>

theorem source_counterexample:
  "''gemini'' \<in> set wallpaperSchema_source_enum
   \<and> ''generated'' \<notin> set wallpaperSchema_source_enum
   \<and> map d_source (fst (insertWallpapers ex_codec 9
        [ex_same_pair \<lparr> wp_id := ''bing_1'', wp_source := ''bing'', wp_external_id := ''1'' \<rparr>]
        [ex_doc])) = [''unsplash'', ''bing'']
   \<and> snd (insertWallpapers ex_codec 9
        [ex_same_pair \<lparr> wp_id := ''bing_1'', wp_source := ''bing'', wp_external_id := ''1'' \<rparr>]
        [ex_doc]) = None
   \<and> ''bing'' \<notin> set wallpaperSchema_source_enum
   \<and> ''bing'' \<notin> set [''unsplash'', ''pexels'', ''generated'']
   \<and> map d_id [ex_doc] = [''unsplash_42''] \<and> map d_source [ex_doc] = [''unsplash'']
   \<and> map_sum id (map d_id) (insertWallpaper ex_codec 9 ex_same_id [ex_doc]) = Inr [''unsplash_42'']
   \<and> map_sum id (map d_source) (insertWallpaper ex_codec 9 ex_same_id [ex_doc]) = Inr [''pexels'']
   \<and> map d_source (fst (insertWallpapers ex_codec 9 [ex_same_id] [ex_doc])) = [''pexels'']"
  by code_simp

text \<open>
  Claim C8 as amended. The schema's enumeration is \<open>unsplash\<close>, \<open>pexels\<close>, \<open>gemini\<close>; the
  insert functions neither check it nor keep a stored source. What holds is a property of
  the ingestion job: on a collection that meets the data-model condition on ids, the job
  keeps every stored document as it is and in place, its source included, and the
  documents it appends have source \<open>unsplash\<close> or \<open>pexels\<close>; so when every stored source
  is in the enumeration before the job, every stored source is in it afterwards.
\<close>

theorem source_kept_by_ingestion:
  assumes "ids_derived (db_wallpapers db)"
  shows "take (length (db_wallpapers db))
            (db_wallpapers (fst (snd (fetchAllCategoryWallpapers J up now db)))) = db_wallpapers db
    \<and> (\<forall>a \<in> set (drop (length (db_wallpapers db))
                    (db_wallpapers (fst (snd (fetchAllCategoryWallpapers J up now db))))).
          d_source a = ''unsplash'' \<or> d_source a = ''pexels'')
    \<and> (list_all (\<lambda>d. d_source d \<in> set wallpaperSchema_source_enum) (db_wallpapers db) \<longrightarrow>
        list_all (\<lambda>d. d_source d \<in> set wallpaperSchema_source_enum)
          (db_wallpapers (fst (snd (fetchAllCategoryWallpapers J up now db)))))"
proof -
  from fetchAll_loop_appends [OF assms, of J up now "getCategories db" 0 "[]"]
  obtain n added tr where r:
    "fetchAll_loop J up now (getCategories db) (db_wallpapers db) 0 [] = (n, db_wallpapers db @ added, tr)"
    "\<forall>a \<in> set added. d_source a = ''unsplash'' \<or> d_source a = ''pexels''"
    by blast
  have w: "db_wallpapers (fst (snd (fetchAllCategoryWallpapers J up now db))) = db_wallpapers db @ added"
    using r(1) by (simp add: fetchAllCategoryWallpapers_def)
  have "list_all (\<lambda>d. d_source d \<in> set wallpaperSchema_source_enum) added"
    unfolding list_all_iff using r(2) provider_sources_in_enum by metis
  then show ?thesis using r(2) by (simp add: w)
qed

theorem source_kept_by_ingestion_witness:
  "ids_derived (db_wallpapers ex_db)
   \<and> list_all (\<lambda>d. d_source d \<in> set wallpaperSchema_source_enum) (db_wallpapers ex_db)
   \<and> take (length (db_wallpapers ex_db))
        (db_wallpapers (fst (snd (fetchAllCategoryWallpapers ex_codec ex_upstream_fallback 5 ex_db))))
       = db_wallpapers ex_db
   \<and> map d_source (db_wallpapers (fst (snd (fetchAllCategoryWallpapers ex_codec ex_upstream_fallback 5 ex_db))))
       = [''unsplash'', ''pexels'']
   \<and> list_all (\<lambda>d. d_source d \<in> set wallpaperSchema_source_enum)
        (db_wallpapers (fst (snd (fetchAllCategoryWallpapers ex_codec ex_upstream_fallback 5 ex_db))))"
proof -
  have h: "ids_derived (db_wallpapers ex_db)"
    by code_simp
  have l: "list_all (\<lambda>d. d_source d \<in> set wallpaperSchema_source_enum) (db_wallpapers ex_db)"
    by code_simp
  have e: "map d_source (db_wallpapers (fst (snd (fetchAllCategoryWallpapers ex_codec ex_upstream_fallback 5 ex_db))))
       = [''unsplash'', ''pexels'']"
    by code_simp
  from source_kept_by_ingestion [OF h, of ex_codec ex_upstream_fallback 5] h l e show ?thesis by blast
qed

subsection \<open>Fallback and isolation of a failing category\<close>

text \<open>
  Claim C5. When the Unsplash request of a category fails and the Pexels request for the
  same query, page 1 and the same page size succeeds, \<open>fetchCategoryWallpapers\<close> makes
  exactly these two requests, returns the number of delivered Pexels wallpapers whose pair
  was not stored, and does not throw. Every delivered wallpaper has source \<open>pexels\<close> and is
  stored afterwards unless its pair was stored before, and every document of the resulting
  collection that was not in the old one has source \<open>pexels\<close>.
\<close>

theorem fallback_to_secondary:
  fixes J up c p st now r
  defines "ws \<equiv> map (\<lambda>photo. pexels_normalizePhoto photo (Some (c_slug c)))
                   (case r of None \<Rightarrow> [] | Some photos \<Rightarrow> photos)"
  assumes "unsplash_get up (c_search_query c) 1 p = Inl m"
    and "pexels_get up (c_search_query c) 1 p = Inr r"
  shows "\<exists>st'. fetchCategoryWallpapers J up now st c p =
           (Returned (length (filter (\<lambda>w. \<not> wallpaperExists st (wp_external_id w) ''pexels'') ws)), st',
            [Request Unsplash (c_search_query c) 1 p, ConsoleError UnsplashSearchError,
             Request Pexels (c_search_query c) 1 p])
      \<and> (\<forall>w \<in> set ws. wp_source w = ''pexels'')
      \<and> (\<forall>w \<in> set ws. \<not> wallpaperExists st (wp_external_id w) ''pexels'' \<longrightarrow>
             wallpaperExists st' (wp_external_id w) ''pexels'')
      \<and> (\<forall>d \<in> set st'. d \<in> set st \<or> d_source d = ''pexels'')"
proof -
  have batch: "category_batch up c p = Some ws"
    using assms(2,3) by (simp add: category_batch_def unsplash_searchPhotos_def pexels_searchPhotos_def ws_def)
  have ev: "category_events up c p =
      [Request Unsplash (c_search_query c) 1 p, ConsoleError UnsplashSearchError,
       Request Pexels (c_search_query c) 1 p]"
    using assms(2,3) by (simp add: category_events_def Let_def)
  have src: "\<forall>w \<in> set ws. wp_source w = ''pexels''"
    by (simp add: ws_def normalizePhoto_source)
  have der: "\<forall>w \<in> set ws. derived_wp w \<and> writable J w"
    by (simp add: ws_def normalizePhoto_derived normalizePhoto_castable)
  have fr: "fresh st ws = filter (\<lambda>w. \<not> wallpaperExists st (wp_external_id w) ''pexels'') ws"
    unfolding fresh_def using src by (intro filter_cong) auto
  from insertWallpapers_fresh [OF der, of now st]
  have ok: "snd (insertWallpapers J now (fresh st ws) st) = None"
    and stored0: "\<forall>w \<in> set (fresh st ws).
        wp_key w \<in> index_key ` set (fst (insertWallpapers J now (fresh st ws) st))"
    by blast+
  obtain st' where iw: "insertWallpapers J now (fresh st ws) st = (st', None)"
    using ok by (metis prod.collapse)
  have stored: "\<forall>w \<in> set (fresh st ws). wp_key w \<in> index_key ` set st'"
    using stored0 by (simp add: iw)
  have mem: "d \<in> set st \<or> (\<exists>w \<in> set (fresh st ws). d_id d = wp_id w \<and> index_key d = wp_key w)"
    if "d \<in> set st'" for d
    using insertWallpapers_members [of d J now "fresh st ws" st] that by (simp add: iw)
  have res: "fetchCategoryWallpapers J up now st c p =
      (Returned (length (fresh st ws)), st', category_events up c p)"
  proof (cases "fresh st ws = []")
    case True
    then have "st' = st" using iw by (simp add: insertWallpapers_def)
    then show ?thesis using True by (simp add: fetchCategoryWallpapers_unfold batch)
  next
    case False
    then show ?thesis by (simp add: fetchCategoryWallpapers_unfold batch iw)
  qed
  have a: "\<forall>w \<in> set ws. \<not> wallpaperExists st (wp_external_id w) ''pexels'' \<longrightarrow>
             wallpaperExists st' (wp_external_id w) ''pexels''"
  proof (intro ballI impI)
    fix w assume w: "w \<in> set ws" and n: "\<not> wallpaperExists st (wp_external_id w) ''pexels''"
    have "w \<in> set (fresh st ws)" using w n by (simp add: fr)
    then have "wp_key w \<in> index_key ` set st'" using stored by blast
    then show "wallpaperExists st' (wp_external_id w) ''pexels''"
      using src w wallpaperExists_key [of st' w] by simp
  qed
  have b: "\<forall>d \<in> set st'. d \<in> set st \<or> d_source d = ''pexels''"
  proof
    fix d assume "d \<in> set st'"
    from mem [OF this] show "d \<in> set st \<or> d_source d = ''pexels''"
    proof
      assume "d \<in> set st" then show ?thesis ..
    next
      assume "\<exists>w \<in> set (fresh st ws). d_id d = wp_id w \<and> index_key d = wp_key w"
      then obtain w where "w \<in> set (fresh st ws)" "index_key d = wp_key w" by blast
      then have "d_source d = ''pexels''" using src fresh_subset [of st ws]
        by (auto simp: index_key_def wp_key_def)
      then show ?thesis ..
    qed
  qed
  show ?thesis using res src a b by (simp add: fr ev)
qed

theorem fallback_to_secondary_witness:
  "unsplash_get ex_upstream_fallback (c_search_query (ex_category 2 ''city'' ''City'')) 1 20 = Inl ''rate limit''
   \<and> pexels_get ex_upstream_fallback (c_search_query (ex_category 2 ''city'' ''City'')) 1 20
        = Inr (Some [ex_pexels_photo])
   \<and> fst (fetchCategoryWallpapers ex_codec ex_upstream_fallback 5 [ex_doc] (ex_category 2 ''city'' ''City'') 20)
        = Returned 1
   \<and> map d_source (fst (snd (fetchCategoryWallpapers ex_codec ex_upstream_fallback 5 [ex_doc]
                                 (ex_category 2 ''city'' ''City'') 20))) = [''unsplash'', ''pexels'']
   \<and> snd (snd (fetchCategoryWallpapers ex_codec ex_upstream_fallback 5 [ex_doc]
                  (ex_category 2 ''city'' ''City'') 20))
        = [Request Unsplash (Some ''city'') 1 20, ConsoleError UnsplashSearchError,
           Request Pexels (Some ''city'') 1 20]"
proof -
  have h1: "unsplash_get ex_upstream_fallback (c_search_query (ex_category 2 ''city'' ''City'')) 1 20
      = Inl ''rate limit''"
    by (simp add: ex_upstream_fallback_def)
  have h2: "pexels_get ex_upstream_fallback (c_search_query (ex_category 2 ''city'' ''City'')) 1 20
        = Inr (Some [ex_pexels_photo])"
    by (simp add: ex_upstream_fallback_def ex_category_def)
  have n: "length (filter (\<lambda>w. \<not> wallpaperExists [ex_doc] (wp_external_id w) ''pexels'')
             (map (\<lambda>photo. pexels_normalizePhoto photo (Some (c_slug (ex_category 2 ''city'' ''City''))))
                (case Some [ex_pexels_photo] of None \<Rightarrow> [] | Some photos \<Rightarrow> photos))) = 1"
    by code_simp
  have q: "c_search_query (ex_category 2 ''city'' ''City'') = Some ''city''"
    by (simp add: ex_category_def)
  have s: "map d_source (fst (snd (fetchCategoryWallpapers ex_codec ex_upstream_fallback 5 [ex_doc]
                                 (ex_category 2 ''city'' ''City'') 20))) = [''unsplash'', ''pexels'']"
    by code_simp
  from fallback_to_secondary [OF h1 h2, of ex_codec 5 "[ex_doc]"] n q s h1 h2
  show ?thesis by auto
qed

text \<open>A call for a category never throws: a fresh batch of normalized objects is accepted.\<close>

lemma fetchCategoryWallpapers_returns:
  "fst (fetchCategoryWallpapers J up now st c p) =
     Returned (case category_batch up c p of None \<Rightarrow> 0 | Some ws \<Rightarrow> length (fresh st ws))"
proof (cases "category_batch up c p")
  case None
  then show ?thesis by (simp add: fetchCategoryWallpapers_unfold)
next
  case (Some ws)
  have der: "\<forall>w \<in> set ws. derived_wp w \<and> writable J w"
    using category_batch_derived [OF Some] by blast
  from insertWallpapers_fresh [OF der, of now st]
  have ok: "snd (insertWallpapers J now (fresh st ws) st) = None" by blast
  obtain st' where iw: "insertWallpapers J now (fresh st ws) st = (st', None)"
    using ok by (metis prod.collapse)
  show ?thesis by (simp add: fetchCategoryWallpapers_unfold Some iw)
qed

lemma fetchAll_loop_step:
  "fetchAll_loop J up now (c # cs) st tot tr =
     fetchAll_loop J up now cs (fst (snd (fetchCategoryWallpapers J up now st c 20)))
       (tot + count_of (fst (fetchCategoryWallpapers J up now st c 20)))
       (tr @ snd (snd (fetchCategoryWallpapers J up now st c 20))
           @ (case fst (fetchCategoryWallpapers J up now st c 20) of
                Returned n \<Rightarrow> []
              | Threw e \<Rightarrow> [ConsoleError (ErrorFetching (c_name c))]))"
  by (cases "fetchCategoryWallpapers J up now st c 20" rule: prod_cases3)
     (simp split: outcome.splits)

text \<open>
  Claim C6. When both requests of a category fail, \<open>fetchCategoryWallpapers\<close> returns 0,
  leaves the collection as it is and logs the failure; it does not throw. In a job over
  three categories whose second one fails in this way, the calls for the first and the
  third category return, the total is the sum of the two counts they return (the third
  running on the collection the first one left), the collection is the one the third call
  leaves, and the failure is in the log.
\<close>

theorem failed_category_is_skipped:
  fixes J up now db c1 c2 c3
  defines "r1 \<equiv> fetchCategoryWallpapers J up now (db_wallpapers db) c1 20"
  defines "r3 \<equiv> fetchCategoryWallpapers J up now (fst (snd r1)) c3 20"
  assumes "getCategories db = [c1, c2, c3]"
    and "unsplash_get up (c_search_query c2) 1 20 = Inl m"
    and "pexels_get up (c_search_query c2) 1 20 = Inl m'"
  shows "fetchCategoryWallpapers J up now st c2 20 =
           (Returned 0, st,
            [Request Unsplash (c_search_query c2) 1 20, ConsoleError UnsplashSearchError,
             Request Pexels (c_search_query c2) 1 20, ConsoleError PexelsSearchError,
             ConsoleError (BothApisFailed (c_name c2))])
    \<and> fst r1 = Returned (count_of (fst r1)) \<and> fst r3 = Returned (count_of (fst r3))
    \<and> fst (fetchAllCategoryWallpapers J up now db) = count_of (fst r1) + count_of (fst r3)
    \<and> db_wallpapers (fst (snd (fetchAllCategoryWallpapers J up now db))) = fst (snd r3)
    \<and> ConsoleError (BothApisFailed (c_name c2)) \<in> set (snd (snd (fetchAllCategoryWallpapers J up now db)))"
proof -
  have none: "category_batch up c2 20 = None"
    using assms(4,5) by (simp add: category_batch_def unsplash_searchPhotos_def pexels_searchPhotos_def)
  have ev: "category_events up c2 20 =
            [Request Unsplash (c_search_query c2) 1 20, ConsoleError UnsplashSearchError,
             Request Pexels (c_search_query c2) 1 20, ConsoleError PexelsSearchError,
             ConsoleError (BothApisFailed (c_name c2))]"
    using assms(4,5) by (simp add: category_events_def Let_def)
  have skip: "fetchCategoryWallpapers J up now s c2 20 = (Returned 0, s, category_events up c2 20)" for s
    by (simp add: fetchCategoryWallpapers_unfold none)
  obtain tr where loop: "fetchAll_loop J up now [c1, c2, c3] (db_wallpapers db) 0 [] =
      (count_of (fst r1) + count_of (fst r3), fst (snd r3), tr)"
    and tr: "ConsoleError (BothApisFailed (c_name c2)) \<in> set tr"
    by (simp add: fetchAll_loop_step skip r1_def r3_def ev del: fetchAll_loop.simps(2))
  have "fetchAllCategoryWallpapers J up now db =
      (count_of (fst r1) + count_of (fst r3),
       updateCategoryCounts (db \<lparr> db_wallpapers := fst (snd r3) \<rparr>), tr)"
    using loop by (simp add: fetchAllCategoryWallpapers_def assms(3))
  moreover have "fst r1 = Returned (count_of (fst r1))" "fst r3 = Returned (count_of (fst r3))"
    by (simp_all add: r1_def r3_def fetchCategoryWallpapers_returns)
  ultimately show ?thesis using tr by (simp add: skip ev)
qed

theorem failed_category_is_skipped_witness:
  "getCategories ex_db =
     [ex_category 2 ''city'' ''City'', ex_category 1 ''nature'' ''Nature'',
      ex_category 3 ''space'' ''Space'']
   \<and> unsplash_get ex_upstream_fallback (c_search_query (ex_category 1 ''nature'' ''Nature'')) 1 20
       = Inl ''rate limit''
   \<and> pexels_get ex_upstream_fallback (c_search_query (ex_category 1 ''nature'' ''Nature'')) 1 20
       = Inl ''timeout''
   \<and> fst (fetchCategoryWallpapers ex_codec ex_upstream_fallback 5 [ex_doc]
            (ex_category 1 ''nature'' ''Nature'') 20) = Returned 0
   \<and> fst (fetchAllCategoryWallpapers ex_codec ex_upstream_fallback 5 ex_db) = 1 + 0"
proof -
  have h1: "getCategories ex_db =
     [ex_category 2 ''city'' ''City'', ex_category 1 ''nature'' ''Nature'',
      ex_category 3 ''space'' ''Space'']"
    by (simp add: getCategories_def ex_db_def ex_category_def)
  have h2: "unsplash_get ex_upstream_fallback (c_search_query (ex_category 1 ''nature'' ''Nature'')) 1 20
       = Inl ''rate limit''"
    by (simp add: ex_upstream_fallback_def)
  have h3: "pexels_get ex_upstream_fallback (c_search_query (ex_category 1 ''nature'' ''Nature'')) 1 20
       = Inl ''timeout''"
    by (simp add: ex_upstream_fallback_def ex_category_def)
  have n1: "count_of (fst (fetchCategoryWallpapers ex_codec ex_upstream_fallback 5 (db_wallpapers ex_db)
              (ex_category 2 ''city'' ''City'') 20)) = 1"
    by code_simp
  have n3: "count_of (fst (fetchCategoryWallpapers ex_codec ex_upstream_fallback 5
              (fst (snd (fetchCategoryWallpapers ex_codec ex_upstream_fallback 5 (db_wallpapers ex_db)
                 (ex_category 2 ''city'' ''City'') 20)))
              (ex_category 3 ''space'' ''Space'') 20)) = 0"
    by code_simp
  from failed_category_is_skipped [OF h1 h2 h3, of ex_codec 5 "[ex_doc]"] h1 h2 h3 n1 n3
  show ?thesis by simp
qed

subsection \<open>Uniqueness of the pair\<close>

lemma upsert_doc_unique:
  assumes "distinct (map d_id st)" and "distinct (map index_key st)"
    and "\<not> (\<exists>d \<in> set st. d_id d \<noteq> wp_id w \<and> index_key d = wp_key w)"
  shows "distinct (map d_id (upsert_doc now w st)) \<and> distinct (map index_key (upsert_doc now w st))"
  using assms
proof (induction st)
  case Nil
  show ?case by simp
next
  case (Cons d ds)
  show ?case
  proof (cases "d_id d = wp_id w")
    case True
    have "wp_key w \<notin> index_key ` set ds"
    proof
      assume "wp_key w \<in> index_key ` set ds"
      then obtain x where x: "x \<in> set ds" "index_key x = wp_key w" by (auto simp: image_iff)
      then have "d_id x = wp_id w" using Cons.prems(3) by auto
      then show False using True x(1) Cons.prems(1) by (auto simp: image_iff)
    qed
    then show ?thesis using True Cons.prems by simp
  next
    case False
    have ih: "distinct (map d_id (upsert_doc now w ds)) \<and> distinct (map index_key (upsert_doc now w ds))"
      using Cons.IH Cons.prems by simp
    have kd: "index_key d \<noteq> wp_key w" using False Cons.prems(3) by auto
    have "d_id d \<notin> d_id ` set (upsert_doc now w ds)"
    proof
      assume "d_id d \<in> d_id ` set (upsert_doc now w ds)"
      then obtain x where x: "x \<in> set (upsert_doc now w ds)" "d_id x = d_id d" by (auto simp: image_iff)
      from upsert_doc_members [OF x(1)] show False
        using x(2) False Cons.prems(1) by (auto simp: image_iff)
    qed
    moreover have "index_key d \<notin> index_key ` set (upsert_doc now w ds)"
    proof
      assume "index_key d \<in> index_key ` set (upsert_doc now w ds)"
      then obtain x where x: "x \<in> set (upsert_doc now w ds)" "index_key x = index_key d"
        by (auto simp: image_iff)
      from upsert_doc_members [OF x(1)] show False
        using x(2) kd Cons.prems(2) by (auto simp: image_iff)
    qed
    ultimately show ?thesis using False ih by simp
  qed
qed

lemma updateOne_upsert_unique:
  assumes "distinct (map d_id st)" and "distinct (map index_key st)"
    and "updateOne_upsert now w st = Inr st'"
  shows "distinct (map d_id st') \<and> distinct (map index_key st')"
proof -
  have "\<not> (\<exists>d \<in> set st. d_id d \<noteq> wp_id w \<and> index_key d = wp_key w)"
    and "st' = upsert_doc now w st"
    using assms(3) by (auto simp: updateOne_upsert_def wp_key_def split: if_splits)
  then show ?thesis using upsert_doc_unique [OF assms(1,2)] by simp
qed

lemma bulkWrite_unique:
  assumes "distinct (map d_id st)" and "distinct (map index_key st)"
  shows "distinct (map d_id (fst (bulkWrite_run now ops st)))
    \<and> distinct (map index_key (fst (bulkWrite_run now ops st)))"
  using assms
proof (induction ops arbitrary: st)
  case Nil
  then show ?case by simp
next
  case (Cons w ops)
  show ?case
  proof (cases "updateOne_upsert now w st")
    case (Inl e)
    then show ?thesis using Cons.prems by simp
  next
    case (Inr st')
    from updateOne_upsert_unique [OF Cons.prems Inr]
    show ?thesis using Cons.IH [of st'] Inr by simp
  qed
qed

lemma apply_write_unique:
  assumes "distinct (map d_id st)" and "distinct (map index_key st)"
  shows "distinct (map d_id (apply_write J st tw)) \<and> distinct (map index_key (apply_write J st tw))"
proof (cases tw)
  case (Pair now x)
  show ?thesis
  proof (cases x)
    case (InsertOne w)
    show ?thesis
    proof (cases "insertWallpaper J now w st")
      case (Inl e)
      then show ?thesis using assms Pair InsertOne by simp
    next
      case (Inr st')
      then obtain doc where "updateOne_upsert now doc st = Inr st'"
        by (auto simp: insertWallpaper_def split: option.splits)
      from updateOne_upsert_unique [OF assms this] show ?thesis using Pair InsertOne Inr by simp
    qed
  next
    case (InsertMany ws)
    show ?thesis
    proof (rule insertWallpapers_cases [of J ws now st])
      assume "insertWallpapers J now ws st = (st, Some CastError)"
      then show ?thesis using assms Pair InsertMany by simp
    next
      fix ds assume "insertWallpapers J now ws st = bulkWrite_run now ds st"
      then show ?thesis using bulkWrite_unique [OF assms, of now ds] Pair InsertMany by simp
    qed
  qed
qed

text \<open>
  Claim C1 as stated fails: the upsert is keyed on \<^verbatim>\<open>_id\<close>, not on the pair. A wallpaper
  object with the stored pair \<open>(42, unsplash)\<close> under another id is not merged into the
  stored record: the write is rejected with a duplicate-key error and the stored title
  stays \<open>Old\<close>. A wallpaper object with the stored id under a pair that is not stored is
  not inserted as a new record: it overwrites the stored one, pair included.
\<close>

theorem upsert_keyed_on_pair_counterexample:
  "wallpaperExists [ex_doc] (wp_external_id ex_same_pair) (wp_source ex_same_pair)
   \<and> wp_title ex_same_pair = ''New''
   \<and> insertWallpaper ex_codec 9 ex_same_pair [ex_doc] = Inl DuplicateKey
   \<and> insertWallpapers ex_codec 9 [ex_same_pair] [ex_doc] = ([ex_doc], Some DuplicateKey)
   \<and> d_title ex_doc = Some ''Old''
   \<and> \<not> wallpaperExists [ex_doc] (wp_external_id ex_same_id) (wp_source ex_same_id)
   \<and> wp_id ex_same_id = d_id ex_doc
   \<and> map index_key (fst (insertWallpapers ex_codec 9 [ex_same_id] [ex_doc])) = [(Some ''7'', ''pexels'')]
   \<and> map d_title (fst (insertWallpapers ex_codec 9 [ex_same_id] [ex_doc])) = [Some ''New'']
   \<and> snd (insertWallpapers ex_codec 9 [ex_same_id] [ex_doc]) = None"
  by code_simp

text \<open>
  Claim C1 as amended. The upsert is keyed on \<^verbatim>\<open>_id\<close>, and the unique index on
  \<open>(external_id, source)\<close> rejects what would duplicate a pair: from a collection in which
  ids and pairs are unique, after any sequence of \<open>insertWallpaper\<close> and \<open>insertWallpapers\<close>
  calls, failing ones included, no two stored documents share a pair (nor an id).
\<close>

theorem pair_unique_after_writes:
  assumes "distinct (map d_id st)" and "distinct (map index_key st)"
  shows "distinct (map index_key (foldl (apply_write J) st writes))
    \<and> distinct (map d_id (foldl (apply_write J) st writes))"
  using assms
proof (induction writes arbitrary: st)
  case Nil
  then show ?case by simp
next
  case (Cons tw writes)
  from apply_write_unique [OF Cons.prems, of J tw]
  show ?case using Cons.IH [of "apply_write J st tw"] by simp
qed

theorem pair_unique_after_writes_witness:
  "distinct (map d_id [ex_doc]) \<and> distinct (map index_key [ex_doc])
   \<and> map index_key (foldl (apply_write ex_codec) [ex_doc]
        [(5, InsertOne ex_same_pair),
         (6, InsertMany [unsplash_normalizePhoto ex_photo (Some ''city''),
                         pexels_normalizePhoto ex_pexels_photo (Some ''city'')])])
       = [(Some ''42'', ''unsplash''), (Some ''7'', ''pexels'')]
   \<and> distinct (map index_key (foldl (apply_write ex_codec) [ex_doc]
        [(5, InsertOne ex_same_pair),
         (6, InsertMany [unsplash_normalizePhoto ex_photo (Some ''city''),
                         pexels_normalizePhoto ex_pexels_photo (Some ''city'')])]))"
proof -
  have h1: "distinct (map d_id [ex_doc])" by simp
  have h2: "distinct (map index_key [ex_doc])" by simp
  have e: "map index_key (foldl (apply_write ex_codec) [ex_doc]
        [(5, InsertOne ex_same_pair),
         (6, InsertMany [unsplash_normalizePhoto ex_photo (Some ''city''),
                         pexels_normalizePhoto ex_pexels_photo (Some ''city'')])])
       = [(Some ''42'', ''unsplash''), (Some ''7'', ''pexels'')]"
    by code_simp
  from pair_unique_after_writes [OF h1 h2, of ex_codec] h1 h2 e show ?thesis by blast
qed

subsection \<open>Tags\<close>

lemma d_tags_written [simp]:
  "d_tags (apply_set now w d) = wp_tags w" "d_tags (new_document now w) = wp_tags w"
  by (simp_all add: apply_set_def new_document_def)

lemma find_append:
  "find P (xs @ ys) = (case find P xs of None \<Rightarrow> find P ys | Some x \<Rightarrow> Some x)"
  by (induction xs) simp_all

lemma find_map: "find P (map f xs) = map_option f (find (\<lambda>x. P (f x)) xs)"
  by (induction xs) simp_all

text \<open>After an upsert the written id carries the written tags; the other ids keep theirs.\<close>

lemma tags_of_upsert_doc:
  "tags_of (upsert_doc now w st) i = (if wp_id w = i then Some (wp_tags w) else tags_of st i)"
  by (induction st) (auto simp: tags_of_def)

lemma updateOne_upsert_Inr:
  "updateOne_upsert now w st = Inr st' \<Longrightarrow> st' = upsert_doc now w st"
  by (simp add: updateOne_upsert_def split: if_splits)

text \<open>After a batch that ran through, an id carries the tags of the last operation on it.\<close>

lemma bulkWrite_run_tags:
  "bulkWrite_run now ops st = (st', None) \<Longrightarrow>
   tags_of st' i = (case find (\<lambda>v. wp_id v = i) (rev ops) of
                      None \<Rightarrow> tags_of st i
                    | Some v \<Rightarrow> Some (wp_tags v))"
proof (induction ops arbitrary: st)
  case Nil
  then show ?case by simp
next
  case (Cons w ops)
  show ?case
  proof (cases "updateOne_upsert now w st")
    case (Inl e)
    then show ?thesis using Cons.prems by simp
  next
    case (Inr r)
    have r: "r = upsert_doc now w st" using updateOne_upsert_Inr [OF Inr] .
    have run: "bulkWrite_run now ops (upsert_doc now w st) = (st', None)"
      using Cons.prems Inr r by simp
    show ?thesis
      using Cons.IH [OF run]
      by (simp add: find_append tags_of_upsert_doc split: option.splits)
  qed
qed

lemma upsert_doc_tags:
  "d \<in> set (upsert_doc now w st) \<Longrightarrow> d \<in> set st \<or> (d_id d = wp_id w \<and> d_tags d = wp_tags w)"
  by (induction st) (auto split: if_splits)

lemma bulkWrite_run_members_tags:
  "d \<in> set (fst (bulkWrite_run now ops st)) \<Longrightarrow>
   d \<in> set st \<or> (\<exists>w \<in> set ops. d_id d = wp_id w \<and> d_tags d = wp_tags w)"
proof (induction ops arbitrary: st)
  case Nil
  then show ?case by simp
next
  case (Cons w ops)
  show ?case
  proof (cases "updateOne_upsert now w st")
    case (Inl e)
    then show ?thesis using Cons.prems by simp
  next
    case (Inr r)
    have r: "r = upsert_doc now w st" using updateOne_upsert_Inr [OF Inr] .
    have "d \<in> set (fst (bulkWrite_run now ops (upsert_doc now w st)))"
      using Cons.prems Inr r by simp
    from Cons.IH [OF this] show ?thesis using upsert_doc_tags [of _ now w st] by auto
  qed
qed

text \<open>The cast keeps the order of a batch, so the last operation on an id is the cast of
  the last object with that id.\<close>

lemma cast_all_list_all2:
  "cast_all ws = Some ds \<Longrightarrow> list_all2 (\<lambda>w d. cast_doc w = Some d) ws ds"
  by (induction ws arbitrary: ds) (auto split: option.splits)

lemma list_all2_find:
  "list_all2 (\<lambda>w d. cast_doc w = Some d) xs ys \<Longrightarrow>
   rel_option (\<lambda>w d. cast_doc w = Some d)
     (find (\<lambda>w. wp_id w = i) xs) (find (\<lambda>d. wp_id d = i) ys)"
proof (induction xs ys rule: list_all2_induct)
  case Nil
  show ?case by simp
next
  case (Cons x xs y ys)
  then show ?case using cast_doc_Some(1) [of x y] by simp
qed

lemma cast_all_find:
  assumes "cast_all ws = Some ds"
  shows "rel_option (\<lambda>w d. cast_doc w = Some d)
     (find (\<lambda>w. wp_id w = i) (rev ws)) (find (\<lambda>d. wp_id d = i) (rev ds))"
proof -
  have "list_all2 (\<lambda>w d. cast_doc w = Some d) (rev ws) (rev ds)"
    using cast_all_list_all2 [OF assms] by simp
  from list_all2_find [OF this, of i] show ?thesis .
qed

lemma fix_tags_malformed: "JSON_parse J s = None \<Longrightarrow> fix_tags J (JStr s) = JArr []"
  by (simp add: fix_tags_def)

lemma prepare_doc_malformed:
  "JSON_parse J s = None \<Longrightarrow>
   prepare_doc J (w \<lparr> wp_tags := JStr s \<rparr>) = prepare_doc J (w \<lparr> wp_tags := JArr [] \<rparr>)"
  by (simp add: prepare_doc_def fix_tags_def)

lemma insertWallpaper_tags:
  assumes "insertWallpaper J now w st = Inr st'"
  shows "tags_of st' i = (if wp_id w = i then cast_tags (fix_tags J (wp_tags w)) else tags_of st i)"
    and "cast_tags (fix_tags J (wp_tags w)) \<noteq> None"
proof -
  from assms obtain doc where doc: "cast_doc (prepare_doc J w) = Some doc"
    and up: "updateOne_upsert now doc st = Inr st'"
    by (auto simp: insertWallpaper_def split: option.splits)
  have st': "st' = upsert_doc now doc st" using updateOne_upsert_Inr [OF up] .
  have c: "cast_tags (fix_tags J (wp_tags w)) = Some (wp_tags doc)" and i: "wp_id doc = wp_id w"
    using cast_doc_Some(1,6) [OF doc] by simp_all
  show "tags_of st' i = (if wp_id w = i then cast_tags (fix_tags J (wp_tags w)) else tags_of st i)"
    by (simp add: st' tags_of_upsert_doc c i)
  show "cast_tags (fix_tags J (wp_tags w)) \<noteq> None" using c by simp
qed

lemma insertWallpapers_tags:
  assumes "insertWallpapers J now ws st = (st', None)"
  shows "tags_of st' i = (case find (\<lambda>w. wp_id w = i) (rev ws) of
                            None \<Rightarrow> tags_of st i
                          | Some w \<Rightarrow> cast_tags (fix_tags J (wp_tags w)))"
proof (rule insertWallpapers_cases [of J ws now st])
  assume "insertWallpapers J now ws st = (st, Some CastError)"
  then show ?thesis using assms by simp
next
  fix ds assume ds: "cast_all (map (prepare_doc J) ws) = Some ds"
    and iw: "insertWallpapers J now ws st = bulkWrite_run now ds st"
  have run: "bulkWrite_run now ds st = (st', None)" using assms iw by simp
  have f: "find (\<lambda>w. wp_id w = i) (rev (map (prepare_doc J) ws))
      = map_option (prepare_doc J) (find (\<lambda>w. wp_id w = i) (rev ws))"
    by (simp add: rev_map find_map)
  have rel: "rel_option (\<lambda>w d. cast_doc w = Some d)
      (map_option (prepare_doc J) (find (\<lambda>w. wp_id w = i) (rev ws)))
      (find (\<lambda>d. wp_id d = i) (rev ds))"
    using cast_all_find [OF ds, of i] by (simp add: f)
  show ?thesis
  proof (cases "find (\<lambda>w. wp_id w = i) (rev ws)")
    case None
    then have "find (\<lambda>d. wp_id d = i) (rev ds) = None" using rel by simp
    then show ?thesis using bulkWrite_run_tags [OF run, of i] None by simp
  next
    case (Some a)
    then obtain d where d: "find (\<lambda>d. wp_id d = i) (rev ds) = Some d"
      "cast_doc (prepare_doc J a) = Some d"
      using rel by (cases "find (\<lambda>d. wp_id d = i) (rev ds)") simp_all
    have "cast_tags (fix_tags J (wp_tags a)) = Some (wp_tags d)"
      using cast_doc_Some(6) [OF d(2)] by simp
    then show ?thesis using bulkWrite_run_tags [OF run, of i] Some d(1) by simp
  qed
qed

lemma insertWallpapers_members_tags:
  assumes "d \<in> set (fst (insertWallpapers J now ws st))"
  shows "d \<in> set st
    \<or> (\<exists>w \<in> set ws. d_id d = wp_id w \<and> cast_tags (fix_tags J (wp_tags w)) = Some (d_tags d))"
proof (rule insertWallpapers_cases [of J ws now st])
  assume "insertWallpapers J now ws st = (st, Some CastError)"
  then show ?thesis using assms by simp
next
  fix ds assume ds: "cast_all (map (prepare_doc J) ws) = Some ds"
    and iw: "insertWallpapers J now ws st = bulkWrite_run now ds st"
  from assms iw have "d \<in> set (fst (bulkWrite_run now ds st))" by simp
  from bulkWrite_run_members_tags [OF this] show ?thesis
  proof
    assume "d \<in> set st" then show ?thesis ..
  next
    assume "\<exists>x \<in> set ds. d_id d = wp_id x \<and> d_tags d = wp_tags x"
    then obtain x where x: "x \<in> set ds" "d_id d = wp_id x" "d_tags d = wp_tags x" by blast
    from cast_all_bwd [OF ds x(1)] obtain w where w: "w \<in> set (map (prepare_doc J) ws)"
      "cast_doc w = Some x" by blast
    then obtain v where v: "v \<in> set ws" "w = prepare_doc J v" by auto
    have "d_id d = wp_id v \<and> cast_tags (fix_tags J (wp_tags v)) = Some (d_tags d)"
      using cast_doc_Some(1,6) [OF w(2)] x(2,3) v(2) by simp
    then show ?thesis using v(1) by blast
  qed
qed

lemma string_tags_strings: "string_tags (TagsArray (map Some ts))"
  by (simp add: list_all_iff)


text \<open>
  Claim C10 as stated fails for a \<open>tags\<close> string that is well-formed JSON but not the text
  of an array. \<^verbatim>\<open>JSON.parse('null')\<close> is \<^verbatim>\<open>null\<close>, the \<^verbatim>\<open>[String]\<close> cast lets \<^verbatim>\<open>null\<close> through,
  and the record is stored with \<open>tags\<close> \<^verbatim>\<open>null\<close>, which is not an array; the stored array of the
  record with that id is replaced by it. \<^verbatim>\<open>JSON.parse('{}')\<close> is an object that the cast
  refuses, and the write fails with a \<^verbatim>\<open>CastError\<close>.
\<close>

theorem tags_counterexample:
  "JSON_parse ex_codec ''null'' = Some JNull
   \<and> wp_id ex_same_id = ''unsplash_42''
   \<and> tags_of [ex_doc] ''unsplash_42'' = Some (TagsArray [Some ''old''])
   \<and> map_sum id (\<lambda>st'. tags_of st' ''unsplash_42'')
        (insertWallpaper ex_codec 5 (ex_same_id \<lparr> wp_tags := JStr ''null'' \<rparr>) [ex_doc])
       = Inr (Some TagsNull)
   \<and> snd (insertWallpapers ex_codec 5 [ex_same_id \<lparr> wp_tags := JStr ''null'' \<rparr>] []) = None
   \<and> map d_tags (fst (insertWallpapers ex_codec 5 [ex_same_id \<lparr> wp_tags := JStr ''null'' \<rparr>] []))
       = [TagsNull]
   \<and> \<not> string_tags TagsNull
   \<and> JSON_parse ex_codec ''{}'' = Some (JObj [])
   \<and> insertWallpaper ex_codec 5 (ex_same_id \<lparr> wp_tags := JStr ''{}'' \<rparr>) [ex_doc] = Inl CastError
   \<and> insertWallpapers ex_codec 5 [ex_same_id \<lparr> wp_tags := JStr ''{}'' \<rparr>] [ex_doc]
       = ([ex_doc], Some CastError)"
  by code_simp

text \<open>
  Claim C10 as amended. Both normalizers emit \<open>tags\<close> as a string, the \<^verbatim>\<open>JSON.stringify\<close>
  text of the array of tag titles (Unsplash; the titles are strings) or of the empty array
  (Pexels). The insert path parses such a text back into that array of strings, the
  \<^verbatim>\<open>[String]\<close> cast accepts it, and a write of a normalized record never fails in the cast:
  when \<open>insertWallpaper\<close> succeeds, the record stored under the written id carries exactly
  the tag titles, as an array of strings. In general, a successful \<open>insertWallpaper\<close>
  leaves under the written id the cast of the prepared tags (the parsed value of a tags
  string, the tags themselves otherwise) and leaves the tags of every other id alone; a
  successful \<open>insertWallpapers\<close> leaves under every id the cast of the prepared tags of the
  last object of the batch with that id, and the stored tags where the batch has none; and
  every document in the collection after any \<open>insertWallpapers\<close> call is a document of
  the old collection or carries the id and the cast of the prepared tags of a written
  object. A tags string on which \<^verbatim>\<open>JSON.parse\<close> throws is replaced by the empty array: the
  write does not fail in the cast, proceeds exactly as the write of the same object with
  empty tags and, when it succeeds, stores the empty array.
\<close>

theorem tags_written_as_array:
  "wp_tags (unsplash_normalizePhoto photo category) = JStr (JSON_stringify (photo_titles photo))
    \<and> wp_tags (pexels_normalizePhoto photo' category) = JStr (JSON_stringify [])
    \<and> fix_tags J (JStr (JSON_stringify ts)) = JArr (map JStr ts)
    \<and> fix_tags J (JArr vs) = JArr vs
    \<and> cast_tags (JArr (map JStr ts)) = Some (TagsArray (map Some ts))
    \<and> string_tags (TagsArray (map Some ts))
    \<and> insertWallpaper J now (unsplash_normalizePhoto photo category) st \<noteq> Inl CastError
    \<and> insertWallpaper J now (pexels_normalizePhoto photo' category) st \<noteq> Inl CastError
    \<and> (\<forall>st'. insertWallpaper J now (unsplash_normalizePhoto photo category) st = Inr st' \<longrightarrow>
          tags_of st' (wp_id (unsplash_normalizePhoto photo category))
            = Some (TagsArray (map Some (photo_titles photo))))
    \<and> (\<forall>st'. insertWallpaper J now (pexels_normalizePhoto photo' category) st = Inr st' \<longrightarrow>
          tags_of st' (wp_id (pexels_normalizePhoto photo' category)) = Some (TagsArray []))
    \<and> (\<forall>st'. insertWallpaper J now w st = Inr st' \<longrightarrow>
          tags_of st' (wp_id w) = cast_tags (fix_tags J (wp_tags w))
          \<and> tags_of st' (wp_id w) \<noteq> None
          \<and> (\<forall>i. i \<noteq> wp_id w \<longrightarrow> tags_of st' i = tags_of st i))
    \<and> (\<forall>st'. insertWallpapers J now ws st = (st', None) \<longrightarrow>
          (\<forall>i. tags_of st' i =
                (case find (\<lambda>v. wp_id v = i) (rev ws) of
                   None \<Rightarrow> tags_of st i
                 | Some v \<Rightarrow> cast_tags (fix_tags J (wp_tags v)))))
    \<and> (\<forall>d \<in> set (fst (insertWallpapers J now ws st)).
          d \<in> set st
          \<or> (\<exists>v \<in> set ws. d_id d = wp_id v
                \<and> cast_tags (fix_tags J (wp_tags v)) = Some (d_tags d)))
    \<and> (JSON_parse J s = None \<longrightarrow>
          fix_tags J (JStr s) = JArr []
          \<and> insertWallpaper J now (w \<lparr> wp_tags := JStr s \<rparr>) st
              = insertWallpaper J now (w \<lparr> wp_tags := JArr [] \<rparr>) st
          \<and> insertWallpaper J now (w \<lparr> wp_tags := JStr s \<rparr>) st \<noteq> Inl CastError
          \<and> (\<forall>st'. insertWallpaper J now (w \<lparr> wp_tags := JStr s \<rparr>) st = Inr st' \<longrightarrow>
                tags_of st' (wp_id w) = Some (TagsArray []))
          \<and> insertWallpapers J now (pre @ w \<lparr> wp_tags := JStr s \<rparr> # post) st
              = insertWallpapers J now (pre @ w \<lparr> wp_tags := JArr [] \<rparr> # post) st)"
proof -
  let ?u = "unsplash_normalizePhoto photo category"
  let ?p = "pexels_normalizePhoto photo' category"
  have n1: "wp_tags ?u = JStr (JSON_stringify (photo_titles photo))"
    and n2: "wp_tags ?p = JStr (JSON_stringify [])"
    by (simp_all add: normalizePhoto_tags)
  have rt: "fix_tags J (JStr (JSON_stringify ts)) = JArr (map JStr ts)" for ts
    by (rule fix_tags_stringify)
  have ar: "fix_tags J (JArr vs) = JArr vs"
    by (simp add: fix_tags_def)
  have ct: "cast_tags (JArr (map JStr ts)) = Some (TagsArray (map Some ts))" for ts
    by (rule cast_tags_strings)
  have stg: "string_tags (TagsArray (map Some ts))"
    by (rule string_tags_strings)
  have cu: "cast_tags (fix_tags J (wp_tags ?u)) = Some (TagsArray (map Some (photo_titles photo)))"
    by (simp add: n1 rt ct)
  have cp: "cast_tags (fix_tags J (wp_tags ?p)) = Some (TagsArray [])"
    using ct [of "[]"] by (simp add: n2 rt)
  have nocast: "insertWallpaper J now v st \<noteq> Inl CastError"
    if "cast_tags (fix_tags J (wp_tags v)) \<noteq> None" for v
    using that
    by (auto simp: insertWallpaper_def cast_doc_def updateOne_upsert_def split: option.splits)
  have e1: "insertWallpaper J now ?u st \<noteq> Inl CastError" using nocast [of ?u] cu by simp
  have e2: "insertWallpaper J now ?p st \<noteq> Inl CastError" using nocast [of ?p] cp by simp
  have one: "tags_of st' (wp_id v) = cast_tags (fix_tags J (wp_tags v))
          \<and> tags_of st' (wp_id v) \<noteq> None
          \<and> (\<forall>i. i \<noteq> wp_id v \<longrightarrow> tags_of st' i = tags_of st i)"
    if "insertWallpaper J now v st = Inr st'" for v st'
    using insertWallpaper_tags [OF that] by auto
  have w1: "\<forall>st'. insertWallpaper J now ?u st = Inr st' \<longrightarrow>
      tags_of st' (wp_id ?u) = Some (TagsArray (map Some (photo_titles photo)))"
    using one [of ?u] cu by simp
  have w2: "\<forall>st'. insertWallpaper J now ?p st = Inr st' \<longrightarrow>
      tags_of st' (wp_id ?p) = Some (TagsArray [])"
    using one [of ?p] cp by simp
  have g1: "\<forall>st'. insertWallpaper J now w st = Inr st' \<longrightarrow>
          tags_of st' (wp_id w) = cast_tags (fix_tags J (wp_tags w))
          \<and> tags_of st' (wp_id w) \<noteq> None
          \<and> (\<forall>i. i \<noteq> wp_id w \<longrightarrow> tags_of st' i = tags_of st i)"
    using one [of w] by blast
  have g2: "\<forall>st'. insertWallpapers J now ws st = (st', None) \<longrightarrow>
          (\<forall>i. tags_of st' i =
                (case find (\<lambda>v. wp_id v = i) (rev ws) of
                   None \<Rightarrow> tags_of st i
                 | Some v \<Rightarrow> cast_tags (fix_tags J (wp_tags v))))"
    using insertWallpapers_tags [of J now ws st] by blast
  have g3: "\<forall>d \<in> set (fst (insertWallpapers J now ws st)).
          d \<in> set st
          \<or> (\<exists>v \<in> set ws. d_id d = wp_id v
                \<and> cast_tags (fix_tags J (wp_tags v)) = Some (d_tags d))"
    using insertWallpapers_members_tags [of _ J now ws st] by blast
  have m: "JSON_parse J s = None \<longrightarrow>
          fix_tags J (JStr s) = JArr []
          \<and> insertWallpaper J now (w \<lparr> wp_tags := JStr s \<rparr>) st
              = insertWallpaper J now (w \<lparr> wp_tags := JArr [] \<rparr>) st
          \<and> insertWallpaper J now (w \<lparr> wp_tags := JStr s \<rparr>) st \<noteq> Inl CastError
          \<and> (\<forall>st'. insertWallpaper J now (w \<lparr> wp_tags := JStr s \<rparr>) st = Inr st' \<longrightarrow>
                tags_of st' (wp_id w) = Some (TagsArray []))
          \<and> insertWallpapers J now (pre @ w \<lparr> wp_tags := JStr s \<rparr> # post) st
              = insertWallpapers J now (pre @ w \<lparr> wp_tags := JArr [] \<rparr> # post) st"
  proof
    assume none: "JSON_parse J s = None"
    have f: "fix_tags J (JStr s) = JArr []" using fix_tags_malformed [OF none] .
    have c: "cast_tags (fix_tags J (wp_tags (w \<lparr> wp_tags := JStr s \<rparr>))) = Some (TagsArray [])"
      using ct [of "[]"] by (simp add: f)
    have a: "insertWallpaper J now (w \<lparr> wp_tags := JStr s \<rparr>) st
              = insertWallpaper J now (w \<lparr> wp_tags := JArr [] \<rparr>) st"
      using prepare_doc_malformed [OF none, of w] by (simp add: insertWallpaper_def)
    have b: "insertWallpaper J now (w \<lparr> wp_tags := JStr s \<rparr>) st \<noteq> Inl CastError"
      using nocast [of "w \<lparr> wp_tags := JStr s \<rparr>"] c by simp
    have d: "\<forall>st'. insertWallpaper J now (w \<lparr> wp_tags := JStr s \<rparr>) st = Inr st' \<longrightarrow>
                tags_of st' (wp_id w) = Some (TagsArray [])"
      using one [of "w \<lparr> wp_tags := JStr s \<rparr>"] c by simp
    have e: "insertWallpapers J now (pre @ w \<lparr> wp_tags := JStr s \<rparr> # post) st
              = insertWallpapers J now (pre @ w \<lparr> wp_tags := JArr [] \<rparr> # post) st"
      using prepare_doc_malformed [OF none, of w] by (simp add: insertWallpapers_def)
    from f a b d e show "fix_tags J (JStr s) = JArr []
          \<and> insertWallpaper J now (w \<lparr> wp_tags := JStr s \<rparr>) st
              = insertWallpaper J now (w \<lparr> wp_tags := JArr [] \<rparr>) st
          \<and> insertWallpaper J now (w \<lparr> wp_tags := JStr s \<rparr>) st \<noteq> Inl CastError
          \<and> (\<forall>st'. insertWallpaper J now (w \<lparr> wp_tags := JStr s \<rparr>) st = Inr st' \<longrightarrow>
                tags_of st' (wp_id w) = Some (TagsArray []))
          \<and> insertWallpapers J now (pre @ w \<lparr> wp_tags := JStr s \<rparr> # post) st
              = insertWallpapers J now (pre @ w \<lparr> wp_tags := JArr [] \<rparr> # post) st"
      by blast
  qed
  show ?thesis
    by (intro conjI) (rule n1 n2 rt ar ct stg e1 e2 w1 w2 g1 g2 g3 m)+
qed

theorem tags_written_as_array_witness:
  "tags_of [ex_doc] ''unsplash_42'' = Some (TagsArray [Some ''old''])
   \<and> wp_id (unsplash_normalizePhoto ex_photo (Some ''city'')) = ''unsplash_42''
   \<and> \<not> isl (insertWallpaper ex_codec 5 (unsplash_normalizePhoto ex_photo (Some ''city'')) [ex_doc])
   \<and> tags_of (projr (insertWallpaper ex_codec 5 (unsplash_normalizePhoto ex_photo (Some ''city''))
                       [ex_doc])) ''unsplash_42''
       = Some (TagsArray [Some ''sky''])
   \<and> snd (insertWallpapers ex_codec 5
        [unsplash_normalizePhoto ex_photo (Some ''city''),
         pexels_normalizePhoto ex_pexels_photo (Some ''city'')] [ex_doc]) = None
   \<and> map (tags_of (fst (insertWallpapers ex_codec 5
        [unsplash_normalizePhoto ex_photo (Some ''city''),
         pexels_normalizePhoto ex_pexels_photo (Some ''city'')] [ex_doc])))
        [''unsplash_42'', ''pexels_7'']
       = [Some (TagsArray [Some ''sky'']), Some (TagsArray [])]
   \<and> JSON_parse ex_codec ''[sky'' = None
   \<and> wp_id ex_same_id = ''unsplash_42''
   \<and> \<not> isl (insertWallpaper ex_codec 5 (ex_same_id \<lparr> wp_tags := JStr ''[sky'' \<rparr>) [ex_doc])
   \<and> insertWallpaper ex_codec 5 (ex_same_id \<lparr> wp_tags := JStr ''[sky'' \<rparr>) [ex_doc]
       = insertWallpaper ex_codec 5 (ex_same_id \<lparr> wp_tags := JArr [] \<rparr>) [ex_doc]
   \<and> tags_of (projr (insertWallpaper ex_codec 5 (ex_same_id \<lparr> wp_tags := JStr ''[sky'' \<rparr>) [ex_doc]))
        ''unsplash_42''
       = Some (TagsArray [])"
proof -
  let ?u = "unsplash_normalizePhoto ex_photo (Some ''city'')"
  let ?p = "pexels_normalizePhoto ex_pexels_photo (Some ''city'')"
  let ?m = "ex_same_id \<lparr> wp_tags := JStr ''[sky'' \<rparr>"
  note T = tags_written_as_array [where J = ex_codec and now = 5 and st = "[ex_doc]"
      and photo = ex_photo and photo' = ex_pexels_photo and category = "Some ''city''"
      and w = ex_same_id and s = "''[sky''" and ws = "[?u, ?p]"]
  note T9 = T [THEN conjunct2, THEN conjunct2, THEN conjunct2, THEN conjunct2, THEN conjunct2, THEN conjunct2, THEN conjunct2, THEN conjunct2, THEN conjunct1]
  note T14 = T [THEN conjunct2, THEN conjunct2, THEN conjunct2, THEN conjunct2, THEN conjunct2, THEN conjunct2, THEN conjunct2, THEN conjunct2, THEN conjunct2, THEN conjunct2, THEN conjunct2, THEN conjunct2, THEN conjunct2]
  have t0: "tags_of [ex_doc] ''unsplash_42'' = Some (TagsArray [Some ''old''])" by code_simp
  have iu: "wp_id ?u = ''unsplash_42''" by code_simp
  have im: "wp_id ex_same_id = ''unsplash_42''" by code_simp
  have ti: "photo_titles ex_photo = [''sky'']" by code_simp
  have ru: "\<not> isl (insertWallpaper ex_codec 5 ?u [ex_doc])" by code_simp
  then have hu: "insertWallpaper ex_codec 5 ?u [ex_doc]
      = Inr (projr (insertWallpaper ex_codec 5 ?u [ex_doc]))" by simp
  have a: "tags_of (projr (insertWallpaper ex_codec 5 ?u [ex_doc])) ''unsplash_42''
      = Some (TagsArray [Some ''sky''])"
    using T9 [rule_format, OF hu] by (simp add: iu ti)
  have ok: "snd (insertWallpapers ex_codec 5 [?u, ?p] [ex_doc]) = None" by code_simp
  have b: "map (tags_of (fst (insertWallpapers ex_codec 5 [?u, ?p] [ex_doc])))
        [''unsplash_42'', ''pexels_7'']
       = [Some (TagsArray [Some ''sky'']), Some (TagsArray [])]"
    by code_simp
  have pn: "JSON_parse ex_codec ''[sky'' = None" by code_simp
  have rm: "\<not> isl (insertWallpaper ex_codec 5 ?m [ex_doc])" by code_simp
  then have hm: "insertWallpaper ex_codec 5 ?m [ex_doc]
      = Inr (projr (insertWallpaper ex_codec 5 ?m [ex_doc]))" by simp
  have c: "insertWallpaper ex_codec 5 ?m [ex_doc]
       = insertWallpaper ex_codec 5 (ex_same_id \<lparr> wp_tags := JArr [] \<rparr>) [ex_doc]"
    using T14 [THEN mp, OF pn] by (rule conjunct2 [THEN conjunct1])
  have d: "tags_of (projr (insertWallpaper ex_codec 5 ?m [ex_doc])) ''unsplash_42''
       = Some (TagsArray [])"
    using T14 [THEN mp, OF pn, THEN conjunct2, THEN conjunct2, THEN conjunct2, THEN conjunct1,
        rule_format, OF hm]
    by (simp add: im)
  from t0 iu ru a ok b pn im rm c d show ?thesis by blast
qed

end
